theory Spec2Isabelle
  imports Main "HOL-Library.AList"
begin

section \<open>JavaScript values\<close>

text \<open>
  The plugin (src/index.js) receives its options and the host's settings as untyped
  JavaScript values and inspects them with \<open>typeof\<close>, \<open>Array.isArray\<close>, truthiness and
  string concatenation. The values that can reach those tests are modelled by a
  datatype: the primitive values, boxed strings (\<open>new String(..)\<close>, which the source
  tests with \<open>instanceof String\<close>), functions (carrying their source text), arrays and
  plain objects (own enumerable properties in insertion order). Symbols and BigInts
  are left out.
\<close>

datatype js_value =
    JUndefined
  | JNull
  | JBool bool
  | JNum int
  | JNaN
  | JStr string
  | JStringObj string
  | JFun string
  | JArr "js_value list"
  | JObj "(string \<times> js_value) list"

datatype js_error = JsError string | JsTypeError string

fun typeof :: "js_value \<Rightarrow> string" where
  "typeof JUndefined = ''undefined''"
| "typeof JNull = ''object''"
| "typeof (JBool b) = ''boolean''"
| "typeof (JNum n) = ''number''"
| "typeof JNaN = ''number''"
| "typeof (JStr s) = ''string''"
| "typeof (JStringObj s) = ''object''"
| "typeof (JFun s) = ''function''"
| "typeof (JArr vs) = ''object''"
| "typeof (JObj ps) = ''object''"

text \<open>Truthiness, as \<open>!x\<close>, \<open>x && y\<close> and \<open>x || y\<close> use it.\<close>

fun truthy :: "js_value \<Rightarrow> bool" where
  "truthy JUndefined = False"
| "truthy JNull = False"
| "truthy (JBool b) = b"
| "truthy (JNum n) = (n \<noteq> 0)"
| "truthy JNaN = False"
| "truthy (JStr s) = (s \<noteq> [])"
| "truthy (JStringObj s) = True"
| "truthy (JFun s) = True"
| "truthy (JArr vs) = True"
| "truthy (JObj ps) = True"

fun isArray :: "js_value \<Rightarrow> bool" where
  "isArray (JArr vs) = True"
| "isArray v = False"

fun instanceofString :: "js_value \<Rightarrow> bool" where
  "instanceofString (JStringObj s) = True"
| "instanceofString v = False"

text \<open>Decimal digits of a natural number, for the string form of numbers and indices.\<close>

fun digits :: "nat \<Rightarrow> string" where
  "digits n =
     (if n < 10 then [char_of (48 + n)]
      else digits (n div 10) @ [char_of (48 + n mod 10)])"

declare digits.simps [simp del]

definition join :: "string \<Rightarrow> string list \<Rightarrow> string" where
  "join sep xs = concat (case xs of [] \<Rightarrow> [] | y # ys \<Rightarrow> y # map (\<lambda>z. sep @ z) ys)"

text \<open>
  The string a value turns into when it is concatenated to a string (\<open>'..' + v\<close>):
  an array joins its elements with commas, printing \<open>null\<close> and \<open>undefined\<close> elements
  as the empty string; a plain object prints as \<open>[object Object]\<close>.
\<close>

fun js_toString :: "js_value \<Rightarrow> string" where
  "js_toString JUndefined = ''undefined''"
| "js_toString JNull = ''null''"
| "js_toString (JBool b) = (if b then ''true'' else ''false'')"
| "js_toString (JNum n) = (if n < 0 then ''-'' @ digits (nat (- n)) else digits (nat n))"
| "js_toString JNaN = ''NaN''"
| "js_toString (JStr s) = s"
| "js_toString (JStringObj s) = s"
| "js_toString (JFun s) = s"
| "js_toString (JArr vs) =
     join '','' (map (\<lambda>v. if v = JUndefined \<or> v = JNull then [] else js_toString v) vs)"
| "js_toString (JObj ps) = ''[object Object]''"

text \<open>
  The own enumerable properties \<open>Object.assign\<close> copies from a source value of type
  object: the properties of a plain object, the indices of an array, the character
  indices of a boxed string.
\<close>

fun own_props :: "js_value \<Rightarrow> (string \<times> js_value) list" where
  "own_props (JObj ps) = ps"
| "own_props (JArr vs) = zip (map digits [0..<length vs]) vs"
| "own_props (JStringObj s) = zip (map digits [0..<length s]) (map (\<lambda>c. JStr [c]) s)"
| "own_props v = []"

type_synonym js_object = "string \<rightharpoonup> js_value"

text \<open>Reading a property: a missing one reads as \<open>undefined\<close>.\<close>

definition get_prop :: "js_object \<Rightarrow> string \<Rightarrow> js_value" where
  "get_prop obj k = (case obj k of None \<Rightarrow> JUndefined | Some v \<Rightarrow> v)"

definition object_assign :: "js_object \<Rightarrow> (string \<times> js_value) list \<Rightarrow> js_object" where
  "object_assign target ps = fold (\<lambda>(k, v) obj. obj(k \<mapsto> v)) ps target"

section \<open>The plugin object and the compilation\<close>

text \<open>
  \<open>this\<close> of every method: the options, the memo of emitted messages (an object used
  as a set of keys; the messages are the sentences built below, never the name of an
  inherited property), the flag \<open>optionsValidated\<close> (absent, hence falsy, until
  \<open>validateOptions\<close> sets it) and the public path, which \<open>beforeHtmlGeneration\<close> records
  before the document tags are processed.
\<close>

record plugin =
  options :: js_object
  emittedMessages :: "string set"
  optionsValidated :: bool
  hwpPublicPath :: string

text \<open>
  An asset is what the pipeline reads and writes of a webpack source object: the text
  \<open>source()\<close> returns and the \<open>integrity\<close> property (\<open>None\<close> while it is not set).
  \<open>assets\<close> is the object \<open>compilation.assets\<close>, keyed by path, in key order.
\<close>

record asset =
  source :: string
  integrity :: "string option"

type_synonym assets = "(string \<times> asset) list"

text \<open>
  The compilation: the two message sinks (an \<open>Error\<close> object is represented by its
  message), \<open>compiler.options.output.crossOriginLoading\<close>, the table \<open>sriChunkAssets\<close>
  (chunk id to asset path; the hooks that read it are registered after
  \<open>thisCompilation\<close> has created it) and the assets.
\<close>

record compilation =
  warnings :: "string list"
  errors :: "string list"
  crossOriginLoading :: js_value
  sriChunkAssets :: "string \<rightharpoonup> string"
  compilation_assets :: assets

text \<open>
  The runtime's cryptographic provider: \<open>crypto.createHash(v)\<close>, on whatever value it
  is handed, either throws an error with a message (\<open>Inl\<close>) or gives a hash object,
  represented by the function from the bytes to their base64 digest (\<open>Inr\<close>).
\<close>

type_synonym crypto = "js_value \<Rightarrow> string + (string \<Rightarrow> string)"

definition standardHashFuncNames :: "string list" where
  "standardHashFuncNames = [''sha256'', ''sha384'', ''sha512'']"

definition SubresourceIntegrityPlugin :: "js_value \<Rightarrow> js_error + plugin" where
  "SubresourceIntegrityPlugin opts =
     (if opts = JNull \<or> opts = JUndefined then
        Inr \<lparr>options = object_assign [''enabled'' \<mapsto> JBool True] [],
             emittedMessages = {}, optionsValidated = False, hwpPublicPath = []\<rparr>
      else if typeof opts = ''object'' then
        Inr \<lparr>options = object_assign [''enabled'' \<mapsto> JBool True] (own_props opts),
             emittedMessages = {}, optionsValidated = False, hwpPublicPath = []\<rparr>
      else Inl (JsError ''webpack-subresource-integrity: argument must be an object''))"

definition emitMessage :: "string list \<Rightarrow> string \<Rightarrow> string list" where
  "emitMessage messages message = messages @ [''webpack-subresource-integrity: '' @ message]"

definition emitMessageOnce :: "plugin \<Rightarrow> string list \<Rightarrow> string \<Rightarrow> plugin \<times> string list" where
  "emitMessageOnce this messages message =
     (if message \<notin> emittedMessages this then
        (this\<lparr>emittedMessages := insert message (emittedMessages this)\<rparr>,
         emitMessage messages message)
      else (this, messages))"

definition warnOnce :: "plugin \<Rightarrow> compilation \<Rightarrow> string \<Rightarrow> plugin \<times> compilation" where
  "warnOnce this c message =
     (let (this', ms) = emitMessageOnce this (warnings c) message
      in (this', c\<lparr>warnings := ms\<rparr>))"

definition error :: "compilation \<Rightarrow> string \<Rightarrow> compilation" where
  "error c message = c\<lparr>errors := emitMessage (errors c) message\<rparr>"

definition errorOnce :: "plugin \<Rightarrow> compilation \<Rightarrow> string \<Rightarrow> plugin \<times> compilation" where
  "errorOnce this c message =
     (let (this', ms) = emitMessageOnce this (errors c) message
      in (this', c\<lparr>errors := ms\<rparr>))"

section \<open>Validation of the options\<close>

definition crossOriginMessage :: string where
  "crossOriginMessage =
     ''SRI requires a cross-origin policy, defaulting to '' @ [CHR 0x22] @ ''anonymous'' @
     [CHR 0x22] @ ''. '' @
     ''Set webpack option output.crossOriginLoading to a value other than false '' @
     ''to make this warning go away. '' @
     ''See https://w3c.github.io/webappsec-subresource-integrity/#cross-origin-data-leakage''"

definition standardHashMessage :: string where
  "standardHashMessage =
     ''It is recommended that at least one hash function is part of the set '' @
     ''for which support is mandated by the specification. '' @
     ''These are: '' @ join '', '' standardHashFuncNames @ ''. '' @
     ''See http://www.w3.org/TR/SRI/#cryptographic-hash-functions for more information.''"

definition notArrayMessage :: "js_value \<Rightarrow> string" where
  "notArrayMessage v =
     ''options.hashFuncNames must be an array of hash function names, '' @
     ''instead got '' @ [CHR 0x27] @ js_toString v @ [CHR 0x27] @ ''.''"

definition notStringMessage :: "js_value \<Rightarrow> string" where
  "notStringMessage v =
     ''options.hashFuncNames must be an array of hash function names, '' @
     ''but contained '' @ js_toString v @ ''.''"

definition cannotUseMessage :: "js_value \<Rightarrow> string \<Rightarrow> string" where
  "cannotUseMessage v m =
     ''Cannot use hash function '' @ [CHR 0x27] @ js_toString v @ [CHR 0x27] @ '': '' @ m"

text \<open>
  \<open>validateHashFuncName\<close>: a value that is neither a string nor a boxed string is
  reported and rejected; otherwise \<open>crypto.createHash\<close> is tried on the value itself
  (a string or a boxed string), and what it throws is caught, reported and the value
  rejected. Both reports go through \<open>error\<close>, which does not consult the memo.
\<close>

definition validateHashFuncName :: "crypto \<Rightarrow> compilation \<Rightarrow> js_value \<Rightarrow> bool \<times> compilation" where
  "validateHashFuncName createHash c hashFuncName =
     (if typeof hashFuncName \<noteq> ''string'' \<and> \<not> instanceofString hashFuncName then
        (False, error c (notStringMessage hashFuncName))
      else
        (case createHash hashFuncName of
           Inl m \<Rightarrow> (False, error c (cannotUseMessage hashFuncName m))
         | Inr h \<Rightarrow> (True, c)))"

text \<open>
  \<open>Array.prototype.every\<close> with \<open>validateHashFuncName\<close> as its callback: the callback
  runs on the elements in order, and the iteration stops at the first element for
  which it returns false.
\<close>

fun every_validateHashFuncName :: "crypto \<Rightarrow> compilation \<Rightarrow> js_value list \<Rightarrow> bool \<times> compilation" where
  "every_validateHashFuncName createHash c [] = (True, c)"
| "every_validateHashFuncName createHash c (v # vs) =
     (case validateHashFuncName createHash c v of
        (True, c') \<Rightarrow> every_validateHashFuncName createHash c' vs
      | (False, c') \<Rightarrow> (False, c'))"

text \<open>The loop of \<open>warnStandardHashFunc\<close> over the configured names.\<close>

definition foundStandardHashFunc :: "js_value list \<Rightarrow> bool" where
  "foundStandardHashFunc vs = (\<exists>v \<in> set vs. \<exists>s \<in> set standardHashFuncNames. v = JStr s)"

definition warnStandardHashFunc :: "plugin \<Rightarrow> compilation \<Rightarrow> plugin \<times> compilation" where
  "warnStandardHashFunc this c =
     (case get_prop (options this) ''hashFuncNames'' of
        JArr vs \<Rightarrow>
          if \<not> foundStandardHashFunc vs then warnOnce this c standardHashMessage
          else (this, c)
      | v \<Rightarrow> (this, c))"

definition validateHashFuncNames :: "crypto \<Rightarrow> plugin \<Rightarrow> compilation \<Rightarrow> plugin \<times> compilation" where
  "validateHashFuncNames createHash this c =
     (case get_prop (options this) ''hashFuncNames'' of
        JArr vs \<Rightarrow>
          (case every_validateHashFuncName createHash c vs of
             (False, c') \<Rightarrow> (this\<lparr>options := (options this)(''enabled'' \<mapsto> JBool False)\<rparr>, c')
           | (True, c') \<Rightarrow> warnStandardHashFunc this c')
      | v \<Rightarrow>
          (this\<lparr>options := (options this)(''enabled'' \<mapsto> JBool False)\<rparr>,
           error c (notArrayMessage v)))"

definition validateOptions :: "crypto \<Rightarrow> plugin \<Rightarrow> compilation \<Rightarrow> plugin \<times> compilation" where
  "validateOptions createHash this c =
     (if optionsValidated this then (this, c)
      else
        (let this1 = this\<lparr>optionsValidated := True\<rparr>;
             (this2, c2) =
               (if truthy (get_prop (options this1) ''enabled'') \<and> \<not> truthy (crossOriginLoading c)
                then warnOnce this1 c crossOriginMessage
                else (this1, c))
         in validateHashFuncNames createHash this2 c2))"

text \<open>
  \<open>thisCompilation\<close>, the entry point of every build (compilation) of the compiler the
  plugin is applied to: the options are validated; a disabled plugin returns before
  it registers anything; otherwise the table \<open>sriChunkAssets\<close> is created empty and the
  hooks that hash assets are registered. The Boolean tells whether they were.
\<close>

definition thisCompilation :: "crypto \<Rightarrow> plugin \<Rightarrow> compilation \<Rightarrow> plugin \<times> compilation \<times> bool" where
  "thisCompilation createHash this c =
     (let (this', c') = validateOptions createHash this c
      in if \<not> truthy (get_prop (options this') ''enabled'') then (this', c', False)
         else (this', c'\<lparr>sriChunkAssets := Map.empty\<rparr>, True))"

section \<open>Helpers of the pipeline\<close>

text \<open>
  Running a callback over a list (\<open>forEach\<close>) when the callback may throw: the first
  exception ends the iteration and is the result.
\<close>

fun forEach :: "('a \<Rightarrow> 's \<Rightarrow> js_error + 's) \<Rightarrow> 'a list \<Rightarrow> 's \<Rightarrow> js_error + 's" where
  "forEach f [] st = Inr st"
| "forEach f (x # xs) st = (case f x st of Inl e \<Rightarrow> Inl e | Inr st' \<Rightarrow> forEach f xs st')"

text \<open>\<open>String.prototype.indexOf\<close>: the position of the first occurrence, if there is one.\<close>

fun indexOf :: "string \<Rightarrow> string \<Rightarrow> nat option" where
  "indexOf [] m = (if m = [] then Some 0 else None)"
| "indexOf (x # xs) m =
     (if take (length m) (x # xs) = m then Some 0 else map_option Suc (indexOf xs m))"

text \<open>
  The names the helpers of util.js receive as \<open>this.options.hashFuncNames\<close>: an array
  of primitive strings. Any other value makes the helpers throw a \<open>TypeError\<close> when
  they iterate over it or hand an element to the provider.
\<close>

definition hashFuncNames_of :: "plugin \<Rightarrow> js_error + string list" where
  "hashFuncNames_of this =
     (case get_prop (options this) ''hashFuncNames'' of
        JArr vs \<Rightarrow>
          if \<forall>v \<in> set vs. typeof v = ''string''
          then Inr (map js_toString vs)
          else Inl (JsTypeError ''hash function name is not a string'')
      | v \<Rightarrow> Inl (JsTypeError ''hashFuncNames is not an array''))"

text \<open>
  Modelled from the spec: \<open>computeIntegrity\<close> of util.js, which is not among the
  sources. For each algorithm, in the order given, the digest of the bytes is computed
  and base64-encoded by the provider and formatted as \<open>name-digest\<close>; the entries are
  joined with a single space. A name the provider does not support makes it fail.
\<close>

fun integrity_entries :: "crypto \<Rightarrow> string list \<Rightarrow> string \<Rightarrow> js_error + string list" where
  "integrity_entries createHash [] bytes = Inr []"
| "integrity_entries createHash (n # ns) bytes =
     (case createHash (JStr n) of
        Inl m \<Rightarrow> Inl (JsError m)
      | Inr h \<Rightarrow>
          (case integrity_entries createHash ns bytes of
             Inl e \<Rightarrow> Inl e
           | Inr es \<Rightarrow> Inr ((n @ ''-'' @ h bytes) # es)))"

definition computeIntegrity :: "crypto \<Rightarrow> string list \<Rightarrow> string \<Rightarrow> js_error + string" where
  "computeIntegrity createHash hashFuncNames bytes =
     (case integrity_entries createHash hashFuncNames bytes of
        Inl e \<Rightarrow> Inl e
      | Inr es \<Rightarrow> Inr (join '' '' es))"

text \<open>
  Modelled from the spec: \<open>makePlaceholder\<close> of util.js, which is not among the
  sources, is a deterministic function of the algorithm names and the chunk id. It is
  a parameter of the functions below.
\<close>

type_synonym placeholder = "string list \<Rightarrow> string \<Rightarrow> string"

subsection \<open>The chunk graph\<close>

text \<open>
  A chunk has its output files and the chunks it loads at runtime; the graph maps
  chunk ids (in their string form) to chunks, and a child is referred to by its id.
\<close>

record chunk =
  files :: "string list"
  children :: "string list"

type_synonym chunk_graph = "(string \<times> chunk) list"

text \<open>
  Modelled from the spec: \<open>findChunks\<close> of util.js, which is not among the sources.
  A depth-first traversal over the runtime-load edges from the root that collects
  every reachable chunk once, in discovery order, the root first; a visited set keyed
  by chunk id guards against cycles. \<open>walk\<close> is the traversal with its stack of chunks
  still to visit and the chunks discovered so far; an id that names no chunk of the
  graph is passed over, a reference to a chunk being always a reference to a chunk of
  the graph. Nothing in the definition bounds the number of steps: not returning is
  the value \<open>None\<close>.
\<close>

partial_function (option) walk ::
  "chunk_graph \<Rightarrow> string list \<Rightarrow> (string \<times> chunk) list \<Rightarrow> (string \<times> chunk) list option" where
  "walk g stack seen =
     (case stack of
        [] \<Rightarrow> Some seen
      | cid # rest \<Rightarrow>
          (case map_of g cid of
             None \<Rightarrow> walk g rest seen
           | Some ch \<Rightarrow>
               if cid \<in> fst ` set seen then walk g rest seen
               else walk g (children ch @ rest) (seen @ [(cid, ch)])))"

declare walk.simps [code]

definition findChunks :: "chunk_graph \<Rightarrow> string \<Rightarrow> (string \<times> chunk) list option" where
  "findChunks g root = walk g [root] []"

subsection \<open>ReplaceSource\<close>

text \<open>
  \<open>ReplaceSource\<close> of the webpack-sources library wraps a source and records
  replacements, each with its first and last position in the wrapped text, the new
  content and the index at which it was recorded. \<open>source()\<close> sorts them (later end
  first, then later start, then later index) and applies them one after the other to
  what is left of the text in front of the previous one.
\<close>

type_synonym replacement = "int \<times> int \<times> string \<times> nat"

definition replace :: "replacement list \<Rightarrow> int \<Rightarrow> int \<Rightarrow> string \<Rightarrow> replacement list" where
  "replace replacements start end newValue =
     replacements @ [(start, end, newValue, length replacements)]"

definition compare_replacements :: "replacement \<Rightarrow> replacement \<Rightarrow> int" where
  "compare_replacements a b =
     (case (a, b) of ((sa, ea, ca, ia), (sb, eb, cb, ib)) \<Rightarrow>
        if eb - ea \<noteq> 0 then eb - ea
        else if sb - sa \<noteq> 0 then sb - sa
        else int ib - int ia)"

fun insert_replacement :: "replacement \<Rightarrow> replacement list \<Rightarrow> replacement list" where
  "insert_replacement r [] = [r]"
| "insert_replacement r (x # xs) =
     (if compare_replacements r x \<le> 0 then r # x # xs else x # insert_replacement r xs)"

definition sortReplacements :: "replacement list \<Rightarrow> replacement list" where
  "sortReplacements rs = foldr insert_replacement rs []"

definition splitString :: "string \<Rightarrow> int \<Rightarrow> string \<times> string" where
  "splitString str position =
     (if position \<le> 0 then ([], str)
      else (take (nat position) str, drop (nat position) str))"

fun replaceString :: "replacement list \<Rightarrow> string \<Rightarrow> string" where
  "replaceString [] remSource = remSource"
| "replaceString ((start, end, content, i) # rs) remSource =
     (let splitted1 = splitString remSource (end + 1);
          splitted2 = splitString (fst splitted1) start
      in replaceString rs (fst splitted2) @ content @ snd splitted1)"

definition ReplaceSource_source :: "string \<Rightarrow> replacement list \<Rightarrow> string" where
  "ReplaceSource_source wrapped replacements =
     replaceString (sortReplacements replacements) wrapped"

section \<open>The asset rewrite pipeline\<close>

definition hotUpdateMessage :: string where
  "hotUpdateMessage =
     ''webpack-subresource-integrity may interfere with hot reloading. '' @
     ''Consider disabling this plugin in development mode.''"

definition warnIfHotUpdate :: "plugin \<Rightarrow> compilation \<Rightarrow> string \<Rightarrow> plugin \<times> compilation" where
  "warnIfHotUpdate this c src =
     (if indexOf src ''webpackHotUpdate'' \<noteq> None then warnOnce this c hotUpdateMessage
      else (this, c))"

text \<open>
  The callback \<open>replaceMagicMarkers\<close> on one entry of \<open>hashByChunkId\<close>: the marker of
  the entry is searched in the old source, and where it is found, its first occurrence
  is recorded for replacement by the hash.
\<close>

definition replaceMagicMarkers ::
  "placeholder \<Rightarrow> string list \<Rightarrow> string \<Rightarrow> string \<times> string \<Rightarrow> replacement list
     \<Rightarrow> replacement list" where
  "replaceMagicMarkers makePlaceholder hashFuncNames oldSource idAndHash replacements =
     (let magicMarker = makePlaceholder hashFuncNames (fst idAndHash)
      in case indexOf oldSource magicMarker of
           None \<Rightarrow> replacements
         | Some magicMarkerPos \<Rightarrow>
             replace replacements (int magicMarkerPos)
               ((int magicMarkerPos + int (length magicMarker)) - 1) (snd idAndHash))"

text \<open>
  \<open>replaceAsset\<close>: reading the source of a path that is not among the assets throws a
  \<open>TypeError\<close>. The callback runs over the entries of \<open>hashByChunkId\<close> (a \<open>Map\<close>: in
  insertion order). The new asset takes the slot of the old one and gets the integrity
  of its new source.
\<close>

definition replaceAsset ::
  "crypto \<Rightarrow> placeholder \<Rightarrow> plugin \<Rightarrow> assets \<Rightarrow> (string \<times> string) list \<Rightarrow> string
     \<Rightarrow> js_error + assets \<times> asset" where
  "replaceAsset createHash makePlaceholder this assets hashByChunkId chunkFile =
     (case map_of assets chunkFile of
        None \<Rightarrow> Inl (JsTypeError ''Cannot read property source of undefined'')
      | Some old \<Rightarrow>
          (case hashFuncNames_of this of
             Inl e \<Rightarrow> Inl e
           | Inr hashFuncNames \<Rightarrow>
               (let oldSource = source old;
                    newSource = ReplaceSource_source oldSource
                      (fold (replaceMagicMarkers makePlaceholder hashFuncNames oldSource)
                         hashByChunkId [])
                in case computeIntegrity createHash hashFuncNames newSource of
                     Inl e \<Rightarrow> Inl e
                   | Inr i \<Rightarrow>
                       (let newAsset = \<lparr>source = newSource, integrity = Some i\<rparr>
                        in Inr (AList.update chunkFile newAsset assets, newAsset)))))"

definition cannotDetermineMessage :: "string \<Rightarrow> string option \<Rightarrow> string \<Rightarrow> string" where
  "cannotDetermineMessage cid sourcePath file0 =
     ''Cannot determine asset for chunk '' @ cid @ '', computed='' @ [CHR 0x22] @
     (case sourcePath of None \<Rightarrow> ''undefined'' | Some p \<Rightarrow> p) @ [CHR 0x22] @
     '', available='' @ file0 @ ''. Please report this full error message '' @
     ''along with your Webpack configuration at '' @
     ''https://github.com/waysact/webpack-subresource-integrity/issues/new''"

text \<open>
  The state the callback of \<open>processChunk\<close> works on: the plugin, the compilation, the
  assets and the map \<open>hashByChunkId\<close> (local to one call of \<open>processChunk\<close>).
\<close>

type_synonym pipeline_state = "plugin \<times> compilation \<times> assets \<times> (string \<times> string) list"

text \<open>
  The callback of \<open>processChunk\<close> on one chunk of the traversal, in the three parts of
  its body. First the test \<open>childChunk.files.indexOf(sourcePath) < 0\<close> on the entry of
  the table (\<open>undefined\<close> when the chunk has none) and the path the callback goes on
  with.
\<close>

definition sourcePathMismatch :: "compilation \<Rightarrow> string \<times> chunk \<Rightarrow> bool" where
  "sourcePathMismatch c childChunk =
     (case sriChunkAssets c (fst childChunk) of
        None \<Rightarrow> True
      | Some p \<Rightarrow> p \<notin> set (files (snd childChunk)))"

definition resolvedSourcePath :: "compilation \<Rightarrow> string \<times> chunk \<Rightarrow> string \<Rightarrow> string" where
  "resolvedSourcePath c childChunk file0 =
     (case sriChunkAssets c (fst childChunk) of
        None \<Rightarrow> file0
      | Some p \<Rightarrow> if sourcePathMismatch c childChunk then file0 else p)"

text \<open>
  Then the rest of the body once \<open>sourcePath\<close> is settled: the hot-update check on the
  asset's source, \<open>replaceAsset\<close>, and the entry of \<open>hashByChunkId\<close>. \<open>replaceAsset\<close>
  returns the new asset with its integrity set; the branch for an asset without one
  stands for the \<open>undefined\<close> that could then never be spliced into a source.
\<close>

fun rewriteChunkAsset ::
  "crypto \<Rightarrow> placeholder \<Rightarrow> string \<Rightarrow> string \<Rightarrow> pipeline_state \<Rightarrow> js_error + pipeline_state" where
  "rewriteChunkAsset createHash makePlaceholder cid sourcePath (this, c, assets, hashByChunkId) =
     (case map_of assets sourcePath of
        None \<Rightarrow> Inl (JsTypeError ''Cannot read property source of undefined'')
      | Some a \<Rightarrow>
          (let (this2, c2) = warnIfHotUpdate this c (source a)
           in case replaceAsset createHash makePlaceholder this2 assets hashByChunkId
                     sourcePath of
                Inl e \<Rightarrow> Inl e
              | Inr (assets', newAsset) \<Rightarrow>
                  (case integrity newAsset of
                     None \<Rightarrow> Inl (JsTypeError ''integrity is undefined'')
                   | Some i \<Rightarrow>
                       Inr (this2, c2, assets', AList.update cid i hashByChunkId))))"

declare rewriteChunkAsset.simps [simp del]

fun processChildChunk ::
  "crypto \<Rightarrow> placeholder \<Rightarrow> string \<times> chunk \<Rightarrow> pipeline_state \<Rightarrow> js_error + pipeline_state" where
  "processChildChunk createHash makePlaceholder childChunk (this, c, assets, hashByChunkId) =
     (case files (snd childChunk) of
        [] \<Rightarrow> Inr (this, c, assets, hashByChunkId)
      | file0 # others \<Rightarrow>
          (let (this1, c1) =
                 (if sourcePathMismatch c childChunk
                  then warnOnce this c
                         (cannotDetermineMessage (fst childChunk)
                            (sriChunkAssets c (fst childChunk)) file0)
                  else (this, c))
           in rewriteChunkAsset createHash makePlaceholder (fst childChunk)
                (resolvedSourcePath c childChunk file0) (this1, c1, assets, hashByChunkId)))"

declare processChildChunk.simps [simp del]

text \<open>
  \<open>processChunk\<close>: the chunks found from the root, in reverse order of discovery. The
  result is \<open>None\<close> if the traversal does not return, an exception, or the state after
  the last chunk (with the final \<open>hashByChunkId\<close>, which the source then drops).
\<close>

definition processChunk ::
  "crypto \<Rightarrow> placeholder \<Rightarrow> plugin \<Rightarrow> chunk_graph \<Rightarrow> string \<Rightarrow> compilation \<Rightarrow> assets
     \<Rightarrow> (js_error + pipeline_state) option" where
  "processChunk createHash makePlaceholder this g chunk c assets =
     (case findChunks g chunk of
        None \<Rightarrow> None
      | Some found \<Rightarrow>
          Some (forEach (processChildChunk createHash makePlaceholder) (rev found)
                  (this, c, assets, [])))"

definition chunkAsset :: "compilation \<Rightarrow> string \<Rightarrow> string \<Rightarrow> compilation" where
  "chunkAsset c cid a =
     (if map_of (compilation_assets c) a \<noteq> None
      then c\<lparr>sriChunkAssets := (sriChunkAssets c)(cid \<mapsto> a)\<rparr>
      else c)"

text \<open>
  \<open>addMissingIntegrityHashes\<close>: the callback on one key, and the loop over the keys of
  the assets. \<open>!asset.integrity\<close> holds of an absent integrity and of the empty string.
\<close>

definition addMissingIntegrityHash ::
  "crypto \<Rightarrow> plugin \<Rightarrow> string \<Rightarrow> assets \<Rightarrow> js_error + assets" where
  "addMissingIntegrityHash createHash this assetKey assets =
     (case map_of assets assetKey of
        None \<Rightarrow> Inl (JsTypeError ''Cannot read property integrity of undefined'')
      | Some a \<Rightarrow>
          if integrity a = None \<or> integrity a = Some []
          then
            (case hashFuncNames_of this of
               Inl e \<Rightarrow> Inl e
             | Inr hashFuncNames \<Rightarrow>
                 (case computeIntegrity createHash hashFuncNames (source a) of
                    Inl e \<Rightarrow> Inl e
                  | Inr i \<Rightarrow> Inr (AList.update assetKey (a\<lparr>integrity := Some i\<rparr>) assets)))
          else Inr assets)"

definition addMissingIntegrityHashes :: "crypto \<Rightarrow> plugin \<Rightarrow> assets \<Rightarrow> js_error + assets" where
  "addMissingIntegrityHashes createHash this assets =
     forEach (addMissingIntegrityHash createHash this) (map fst assets) assets"

section \<open>The document tag annotator\<close>

text \<open>
  A tag of the document generator: its name and its attribute map (own properties).
  \<open>getTagSrc\<close> and \<open>getIntegrityChecksumForAsset\<close> of util.js, which is not among the
  sources, and \<open>path.relative\<close> of the runtime are parameters of \<open>processTag\<close>.
\<close>

record tag =
  tagName :: string
  attributes :: js_object

definition hwpAssetPath :: "(string \<Rightarrow> string \<Rightarrow> string) \<Rightarrow> plugin \<Rightarrow> string \<Rightarrow> string" where
  "hwpAssetPath path_relative this src = path_relative (hwpPublicPath this) src"

definition processTag ::
  "(tag \<Rightarrow> string) \<Rightarrow> (string \<Rightarrow> string \<Rightarrow> string) \<Rightarrow> (assets \<Rightarrow> string \<Rightarrow> js_value)
     \<Rightarrow> plugin \<Rightarrow> compilation \<Rightarrow> tag \<Rightarrow> tag" where
  "processTag getTagSrc path_relative getIntegrityChecksumForAsset this c t =
     (let src = hwpAssetPath path_relative this (getTagSrc t);
          integrity = getIntegrityChecksumForAsset (compilation_assets c) src
      in if attributes t ''integrity'' = None
         then t\<lparr>attributes := (attributes t)
                  (''integrity'' \<mapsto> integrity,
                   ''crossorigin'' \<mapsto>
                     (if truthy (crossOriginLoading c) then crossOriginLoading c
                      else JStr ''anonymous''))\<rparr>
         else t)"

section \<open>Notions used in the statements\<close>



text \<open>\<open>processChunk\<close> returned, and without an exception.\<close>

definition succeeded :: "(js_error + pipeline_state) option \<Rightarrow> bool" where
  "succeeded r = (case r of Some (Inr st) \<Rightarrow> True | _ \<Rightarrow> False)"

text \<open>
  What \<open>addMissingIntegrityHashes\<close> makes of one asset, and the source \<open>replaceAsset\<close>
  gives an asset with a given \<open>hashByChunkId\<close>.
\<close>

definition filled :: "crypto \<Rightarrow> string list \<Rightarrow> asset \<Rightarrow> asset" where
  "filled createHash hs a =
     (if integrity a = None \<or> integrity a = Some []
      then a\<lparr>integrity := Some (projr (computeIntegrity createHash hs (source a)))\<rparr>
      else a)"

definition rewritten :: "placeholder \<Rightarrow> string list \<Rightarrow> (string \<times> string) list \<Rightarrow> string \<Rightarrow> string" where
  "rewritten makePlaceholder hs hashByChunkId oldSource =
     ReplaceSource_source oldSource
       (fold (replaceMagicMarkers makePlaceholder hs oldSource) hashByChunkId [])"

text \<open>
  What is left after \<open>processChunk\<close>: the source under a path, the warnings of the
  compilation, and \<open>hashByChunkId\<close>.
\<close>

definition final_source :: "(js_error + pipeline_state) option \<Rightarrow> string \<Rightarrow> string option" where
  "final_source r path =
     (case r of
        Some (Inr (this, c, assets, hashByChunkId)) \<Rightarrow> map_option source (map_of assets path)
      | _ \<Rightarrow> None)"

definition final_warnings :: "(js_error + pipeline_state) option \<Rightarrow> string list option" where
  "final_warnings r =
     (case r of
        Some (Inr (this, c, assets, hashByChunkId)) \<Rightarrow> Some (warnings c)
      | _ \<Rightarrow> None)"

definition final_hashes :: "(js_error + pipeline_state) option \<Rightarrow> (string \<times> string) list" where
  "final_hashes r =
     (case r of Some (Inr (this, c, assets, hashByChunkId)) \<Rightarrow> hashByChunkId | _ \<Rightarrow> [])"

subsection \<open>Concrete inputs\<close>

text \<open>
  A provider that knows the three standard algorithms (with a stand-in for the digest)
  and rejects every other name, and every value that is not a primitive string, as
  Node does; a placeholder function; a plugin with a given list of names; and a
  compilation with nothing in it.
\<close>

definition demo_createHash :: crypto where
  "demo_createHash algorithm =
     (case algorithm of
        JStr name \<Rightarrow>
          if name \<in> set standardHashFuncNames then Inr (\<lambda>bytes. digits (length bytes))
          else Inl ''Digest method not supported''
      | v \<Rightarrow> Inl ''The algorithm argument must be of type string'')"

definition demo_makePlaceholder :: placeholder where
  "demo_makePlaceholder hashFuncNames cid =
     ''*-*-*-CHUNK-SRI-HASH-'' @ concat hashFuncNames @ '':'' @ cid"

definition demo_plugin :: "js_value list \<Rightarrow> plugin" where
  "demo_plugin names =
     \<lparr>options = [''enabled'' \<mapsto> JBool True, ''hashFuncNames'' \<mapsto> JArr names],
      emittedMessages = {}, optionsValidated = False, hwpPublicPath = []\<rparr>"

definition demo_compilation :: compilation where
  "demo_compilation =
     \<lparr>warnings = [], errors = [], crossOriginLoading = JStr ''anonymous'',
      sriChunkAssets = Map.empty, compilation_assets = []\<rparr>"

text \<open>Two chunks that load each other, and their assets.\<close>

definition cycle_graph :: chunk_graph where
  "cycle_graph =
     [(''A'', \<lparr>files = [''a.js''], children = [''B'']\<rparr>),
      (''B'', \<lparr>files = [''b.js''], children = [''A'']\<rparr>)]"

definition cycle_assets :: assets where
  "cycle_assets =
     [(''a.js'', \<lparr>source = ''load('' @ demo_makePlaceholder [''sha256''] ''B'' @ '')'',
                 integrity = None\<rparr>),
      (''b.js'', \<lparr>source = ''load('' @ demo_makePlaceholder [''sha256''] ''A'' @ '')'',
                 integrity = None\<rparr>)]"

definition cycle_compilation :: compilation where
  "cycle_compilation =
     \<lparr>warnings = [], errors = [], crossOriginLoading = JStr ''anonymous'',
      sriChunkAssets = [''A'' \<mapsto> ''a.js'', ''B'' \<mapsto> ''b.js''],
      compilation_assets = cycle_assets\<rparr>"

text \<open>A chunk that loads a chunk without output files.\<close>

definition empty_files_graph :: chunk_graph where
  "empty_files_graph =
     [(''A'', \<lparr>files = [''a.js''], children = [''E'']\<rparr>),
      (''E'', \<lparr>files = [], children = []\<rparr>)]"

text \<open>
  A chain: A loads B, B loads C. The source of A has the placeholder of B twice.
\<close>

definition chain_graph :: chunk_graph where
  "chain_graph =
     [(''A'', \<lparr>files = [''a.js''], children = [''B'']\<rparr>),
      (''B'', \<lparr>files = [''b.js''], children = [''C'']\<rparr>),
      (''C'', \<lparr>files = [''c.js''], children = []\<rparr>)]"

definition chain_assets :: assets where
  "chain_assets =
     [(''a.js'', \<lparr>source = ''load('' @ demo_makePlaceholder [''sha256''] ''B'' @ ''); retry(''
                           @ demo_makePlaceholder [''sha256''] ''B'' @ '')'',
                 integrity = None\<rparr>),
      (''b.js'', \<lparr>source = ''load('' @ demo_makePlaceholder [''sha256''] ''C'' @ '')'',
                 integrity = None\<rparr>),
      (''c.js'', \<lparr>source = ''console.log(1)'', integrity = None\<rparr>)]"

definition chain_compilation :: compilation where
  "chain_compilation =
     \<lparr>warnings = [], errors = [], crossOriginLoading = JStr ''anonymous'',
      sriChunkAssets = [''A'' \<mapsto> ''a.js'', ''B'' \<mapsto> ''b.js'', ''C'' \<mapsto> ''c.js''],
      compilation_assets = chain_assets\<rparr>"

text \<open>A table whose entry for B is not a file of B.\<close>

definition mismatch_compilation :: compilation where
  "mismatch_compilation =
     \<lparr>warnings = [], errors = [], crossOriginLoading = JStr ''anonymous'',
      sriChunkAssets = [''A'' \<mapsto> ''a.js'', ''B'' \<mapsto> ''stale.js''],
      compilation_assets = cycle_assets\<rparr>"

text \<open>
  The plugin after a build in which \<open>processChunk\<close> met that table (the plugin it
  started with if the build had ended with an exception).
\<close>

definition plugin_after_mismatch_build :: plugin where
  "plugin_after_mismatch_build =
     (case processChunk demo_createHash demo_makePlaceholder (demo_plugin [JStr ''sha256''])
             cycle_graph ''A'' mismatch_compilation cycle_assets of
        Some (Inr (this, c, assets, hashByChunkId)) \<Rightarrow> this
      | _ \<Rightarrow> demo_plugin [JStr ''sha256''])"

text \<open>
  Assets of which one has its integrity already, an asset without one, and a provider
  that knows no name.
\<close>

definition unhashed_assets :: assets where
  "unhashed_assets = [(''a.js'', \<lparr>source = ''console.log(1)'', integrity = None\<rparr>)]"


definition partly_hashed_assets :: assets where
  "partly_hashed_assets =
     [(''a.js'', \<lparr>source = ''console.log(1)'', integrity = None\<rparr>),
      (''b.css'', \<lparr>source = ''body{}'', integrity = Some ''sha256-kept''\<rparr>)]"

definition failing_createHash :: crypto where
  "failing_createHash algorithm = Inl ''Digest method not supported''"

text \<open>
  Stand-ins for the helpers of the document tags: the tag's \<open>src\<close>, the path with its
  leading slash removed, and the integrity of the asset under that path.
\<close>

definition demo_getTagSrc :: "tag \<Rightarrow> string" where
  "demo_getTagSrc t = js_toString (get_prop (attributes t) ''src'')"

definition demo_path_relative :: "string \<Rightarrow> string \<Rightarrow> string" where
  "demo_path_relative base p = drop (Suc (length base)) p"

definition demo_getIntegrityChecksumForAsset :: "assets \<Rightarrow> string \<Rightarrow> js_value" where
  "demo_getIntegrityChecksumForAsset assets src =
     (case map_of assets src of
        None \<Rightarrow> JNull
      | Some a \<Rightarrow> (case integrity a of None \<Rightarrow> JUndefined | Some i \<Rightarrow> JStr i))"

definition demo_tag_compilation :: compilation where
  "demo_tag_compilation =
     \<lparr>warnings = [], errors = [], crossOriginLoading = JBool False,
      sriChunkAssets = Map.empty,
      compilation_assets = [(''a.js'', \<lparr>source = ''x'', integrity = Some ''sha256-1''\<rparr>)]\<rparr>"

text \<open>
  The plugin after a first build in which the hot-reload warning was emitted: the
  build starts with \<open>thisCompilation\<close> on a new compilation.
\<close>

definition plugin_after_first_build :: plugin where
  "plugin_after_first_build =
     fst (warnOnce
            (fst (thisCompilation demo_createHash (demo_plugin [JStr ''sha256''])
                    demo_compilation))
            (fst (snd (thisCompilation demo_createHash (demo_plugin [JStr ''sha256''])
                         demo_compilation)))
            hotUpdateMessage)"

section \<open>The constructor\<close>

lemma object_assign_get:
  "object_assign target ps k =
     (case map_of (rev ps) k of None \<Rightarrow> target k | Some v \<Rightarrow> Some v)"
  unfolding object_assign_def
  by (induction ps arbitrary: target) (auto split: option.splits simp: map_add_def)

text \<open>
  C9. An argument that is neither \<open>null\<close>, \<open>undefined\<close> nor of type object makes the
  constructor throw an \<open>Error\<close>; \<open>null\<close> and \<open>undefined\<close> give the plugin that an empty
  options object gives; and whenever a plugin is constructed, its option \<open>enabled\<close> is
  \<open>true\<close> unless the argument has a property \<open>enabled\<close> of its own, whose value it then
  is.
\<close>

theorem constructor_argument:
  "(v \<noteq> JNull \<and> v \<noteq> JUndefined \<and> typeof v \<noteq> ''object'' \<longrightarrow>
      SubresourceIntegrityPlugin v =
        Inl (JsError ''webpack-subresource-integrity: argument must be an object''))
   \<and> SubresourceIntegrityPlugin JNull = SubresourceIntegrityPlugin (JObj [])
   \<and> SubresourceIntegrityPlugin JUndefined = SubresourceIntegrityPlugin (JObj [])
   \<and> (SubresourceIntegrityPlugin w = Inr this \<longrightarrow>
        get_prop (options this) ''enabled'' =
          (case map_of (rev (own_props w)) ''enabled'' of
             None \<Rightarrow> JBool True
           | Some x \<Rightarrow> x))"
  by (auto simp: SubresourceIntegrityPlugin_def get_prop_def object_assign_get
           split: option.splits if_splits)

theorem constructor_argument_witness:
  "SubresourceIntegrityPlugin (JStr ''sha256'') =
      Inl (JsError ''webpack-subresource-integrity: argument must be an object'')
   \<and> (\<exists>this. SubresourceIntegrityPlugin (JObj [(''enabled'', JBool False)]) = Inr this
        \<and> get_prop (options this) ''enabled'' = JBool False)"
proof -
  obtain this where
    t: "SubresourceIntegrityPlugin (JObj [(''enabled'', JBool False)]) = Inr this"
    by (simp add: SubresourceIntegrityPlugin_def)
  from constructor_argument [of "JStr ''sha256''" "JObj [(''enabled'', JBool False)]" this] t
  show ?thesis by simp
qed

section \<open>Validation\<close>













section \<open>The memo of emitted messages\<close>

lemma warnOnce_emittedMessages:
  "emittedMessages this \<subseteq> emittedMessages (fst (warnOnce this c m))"
  by (auto simp: warnOnce_def emitMessageOnce_def)

lemma warnStandardHashFunc_emittedMessages:
  "emittedMessages this \<subseteq> emittedMessages (fst (warnStandardHashFunc this c))"
  using warnOnce_emittedMessages by (auto simp: warnStandardHashFunc_def split: js_value.splits)

lemma validateHashFuncNames_emittedMessages:
  "emittedMessages this \<subseteq> emittedMessages (fst (validateHashFuncNames createHash this c))"
  using warnStandardHashFunc_emittedMessages
  by (auto simp: validateHashFuncNames_def split: js_value.splits prod.splits bool.splits)

lemma validateOptions_emittedMessages:
  "emittedMessages this \<subseteq> emittedMessages (fst (validateOptions createHash this c))"
proof (cases "optionsValidated this")
  case True
  then show ?thesis by (simp add: validateOptions_def)
next
  case False
  define t1 where "t1 = this\<lparr>optionsValidated := True\<rparr>"
  define r where
    "r = (if truthy (get_prop (options t1) ''enabled'') \<and> \<not> truthy (crossOriginLoading c)
          then warnOnce t1 c crossOriginMessage else (t1, c))"
  have "emittedMessages this \<subseteq> emittedMessages (fst r)"
    using warnOnce_emittedMessages [of t1 c crossOriginMessage] by (simp add: r_def t1_def)
  moreover have "validateOptions createHash this c =
                   validateHashFuncNames createHash (fst r) (snd r)"
    using False by (simp add: validateOptions_def Let_def split_beta r_def t1_def)
  ultimately show ?thesis
    using validateHashFuncNames_emittedMessages [of "fst r" createHash "snd r"] by auto
qed

text \<open>
  C4, as amended. The memo belongs to the plugin, not to a build. A message that is in
  the memo is not emitted again: \<open>warnOnce\<close> and \<open>errorOnce\<close> leave the plugin and the
  compilation as they are. A message that is not in it is appended once to the list of
  the call and entered into the memo. And the start of a build does not empty the
  memo: what was in it before \<open>thisCompilation\<close> is in it afterwards, so a message is
  emitted at most once in the life of the plugin, over all its builds.
\<close>

theorem memo_scope:
  "(message \<in> emittedMessages this \<longrightarrow>
      warnOnce this c message = (this, c) \<and> errorOnce this c message = (this, c))
   \<and> (message \<notin> emittedMessages this \<longrightarrow>
      warnOnce this c message =
        (this\<lparr>emittedMessages := insert message (emittedMessages this)\<rparr>,
         c\<lparr>warnings := warnings c @ [''webpack-subresource-integrity: '' @ message]\<rparr>)
      \<and> errorOnce this c message =
        (this\<lparr>emittedMessages := insert message (emittedMessages this)\<rparr>,
         c\<lparr>errors := errors c @ [''webpack-subresource-integrity: '' @ message]\<rparr>))
   \<and> emittedMessages this \<subseteq> emittedMessages (fst (thisCompilation createHash this c'))"
proof -
  have "emittedMessages this \<subseteq> emittedMessages (fst (thisCompilation createHash this c'))"
    using validateOptions_emittedMessages [of this createHash c']
    by (simp add: thisCompilation_def split_beta)
  then show ?thesis
    by (simp add: warnOnce_def errorOnce_def emitMessageOnce_def emitMessage_def)
qed

theorem memo_scope_witness:
  "warnOnce (demo_plugin [JStr ''sha256'']) demo_compilation hotUpdateMessage =
     ((demo_plugin [JStr ''sha256''])\<lparr>emittedMessages := {hotUpdateMessage}\<rparr>,
      demo_compilation\<lparr>warnings := [''webpack-subresource-integrity: '' @ hotUpdateMessage]\<rparr>)
   \<and> warnOnce ((demo_plugin [JStr ''sha256''])\<lparr>emittedMessages := {hotUpdateMessage}\<rparr>)
        demo_compilation hotUpdateMessage =
     ((demo_plugin [JStr ''sha256''])\<lparr>emittedMessages := {hotUpdateMessage}\<rparr>,
      demo_compilation)"
  using memo_scope [of hotUpdateMessage "demo_plugin [JStr ''sha256'']" demo_compilation]
    memo_scope [of hotUpdateMessage
      "(demo_plugin [JStr ''sha256''])\<lparr>emittedMessages := {hotUpdateMessage}\<rparr>"
      demo_compilation]
  by (simp add: demo_plugin_def demo_compilation_def)

text \<open>
  C4 as stated fails: the second build of the same plugin starts with the message of
  the first build in the memo, its hooks are registered, and the same warning is not
  added to the new compilation.
\<close>

theorem memo_per_build_counterexample:
  "emittedMessages plugin_after_first_build = {hotUpdateMessage}
   \<and> snd (snd (thisCompilation demo_createHash plugin_after_first_build demo_compilation))
   \<and> emittedMessages
       (fst (thisCompilation demo_createHash plugin_after_first_build demo_compilation))
       = {hotUpdateMessage}
   \<and> warnings (snd (warnOnce
         (fst (thisCompilation demo_createHash plugin_after_first_build demo_compilation))
         (fst (snd (thisCompilation demo_createHash plugin_after_first_build
                      demo_compilation)))
         hotUpdateMessage)) = []"
  by (simp add: plugin_after_first_build_def thisCompilation_def validateOptions_def
        validateHashFuncNames_def validateHashFuncName_def warnStandardHashFunc_def
        foundStandardHashFunc_def warnOnce_def emitMessageOnce_def emitMessage_def
        demo_plugin_def demo_createHash_def demo_compilation_def get_prop_def
        standardHashFuncNames_def Let_def)

section \<open>The document tags\<close>

text \<open>
  C6. A tag whose attributes have an \<open>integrity\<close> of their own is returned as it is. A
  tag without one gets two attributes and no other change: \<open>integrity\<close>, the value the
  lookup gives for the asset the tag refers to, and \<open>crossorigin\<close>, the configured
  \<open>crossOriginLoading\<close> when that is truthy and \<open>anonymous\<close> otherwise.
\<close>

theorem processTag_attributes:
  "(attributes t ''integrity'' \<noteq> None \<longrightarrow>
      processTag getTagSrc path_relative getIntegrityChecksumForAsset this c t = t)
   \<and> (attributes t ''integrity'' = None \<longrightarrow>
      processTag getTagSrc path_relative getIntegrityChecksumForAsset this c t =
        t\<lparr>attributes := (attributes t)
            (''integrity'' \<mapsto>
               getIntegrityChecksumForAsset (compilation_assets c)
                 (path_relative (hwpPublicPath this) (getTagSrc t)),
             ''crossorigin'' \<mapsto>
               (if truthy (crossOriginLoading c) then crossOriginLoading c
                else JStr ''anonymous''))\<rparr>)"
  by (simp add: processTag_def hwpAssetPath_def Let_def)

theorem processTag_attributes_witness:
  "processTag demo_getTagSrc demo_path_relative demo_getIntegrityChecksumForAsset
     (demo_plugin []) demo_tag_compilation
     \<lparr>tagName = ''script'',
      attributes = [''src'' \<mapsto> JStr ''/a.js'', ''integrity'' \<mapsto> JStr ''sha256-keep'']\<rparr>
   = \<lparr>tagName = ''script'',
      attributes = [''src'' \<mapsto> JStr ''/a.js'', ''integrity'' \<mapsto> JStr ''sha256-keep'']\<rparr>
   \<and> attributes
        (processTag demo_getTagSrc demo_path_relative demo_getIntegrityChecksumForAsset
           (demo_plugin []) demo_tag_compilation
           \<lparr>tagName = ''script'', attributes = [''src'' \<mapsto> JStr ''/a.js'']\<rparr>)
      = [''src'' \<mapsto> JStr ''/a.js'', ''integrity'' \<mapsto> JStr ''sha256-1'',
         ''crossorigin'' \<mapsto> JStr ''anonymous'']"
  using processTag_attributes [of
      "\<lparr>tagName = ''script'',
        attributes = [''src'' \<mapsto> JStr ''/a.js'', ''integrity'' \<mapsto> JStr ''sha256-keep'']\<rparr>"
      demo_getTagSrc demo_path_relative demo_getIntegrityChecksumForAsset
      "demo_plugin []" demo_tag_compilation]
    processTag_attributes [of
      "\<lparr>tagName = ''script'', attributes = [''src'' \<mapsto> JStr ''/a.js'']\<rparr>"
      demo_getTagSrc demo_path_relative demo_getIntegrityChecksumForAsset
      "demo_plugin []" demo_tag_compilation]
  by (simp add: demo_getTagSrc_def demo_path_relative_def
        demo_getIntegrityChecksumForAsset_def demo_plugin_def demo_tag_compilation_def
        get_prop_def)

section \<open>The traversal\<close>

lemma walk_Nil: "walk g [] seen = Some seen"
  by (subst walk.simps) simp

lemma walk_Cons:
  "walk g (cid # rest) seen =
     (case map_of g cid of
        None \<Rightarrow> walk g rest seen
      | Some ch \<Rightarrow>
          if cid \<in> fst ` set seen then walk g rest seen
          else walk g (children ch @ rest) (seen @ [(cid, ch)]))"
  by (subst walk.simps) simp

text \<open>
  The traversal returns on every graph: each step either discovers a chunk of the
  graph that was not discovered before, or shortens the stack.
\<close>

lemma walk_total:
  assumes "distinct (map fst seen)" and "\<forall>x \<in> set seen. map_of g (fst x) = Some (snd x)"
  shows "\<exists>r. walk g stack seen = Some r \<and> distinct (map fst r)
           \<and> (\<forall>x \<in> set r. map_of g (fst x) = Some (snd x))"
  using assms
proof (induction "card (fst ` set g - fst ` set seen)" arbitrary: stack seen rule: less_induct)
  case less
  show ?case
  proof (induction stack)
    case Nil
    then show ?case using less.prems by (simp add: walk_Nil)
  next
    case (Cons cid rest)
    show ?case
    proof (cases "map_of g cid")
      case None
      then show ?thesis using Cons by (simp add: walk_Cons)
    next
      case (Some ch)
      show ?thesis
      proof (cases "cid \<in> fst ` set seen")
        case True
        then show ?thesis using Cons Some by (simp add: walk_Cons)
      next
        case False
        have dom: "cid \<in> fst ` set g"
          using Some by (metis map_of_eq_None_iff option.distinct(1))
        have "fst ` set g - fst ` set (seen @ [(cid, ch)]) \<subset> fst ` set g - fst ` set seen"
          using False dom by auto
        then have "card (fst ` set g - fst ` set (seen @ [(cid, ch)]))
                     < card (fst ` set g - fst ` set seen)"
          by (intro psubset_card_mono) auto
        moreover have "distinct (map fst (seen @ [(cid, ch)]))"
          using less.prems(1) False by auto
        moreover have "\<forall>x \<in> set (seen @ [(cid, ch)]). map_of g (fst x) = Some (snd x)"
          using less.prems(2) Some by auto
        ultimately have "\<exists>r. walk g (children ch @ rest) (seen @ [(cid, ch)]) = Some r
            \<and> distinct (map fst r) \<and> (\<forall>x \<in> set r. map_of g (fst x) = Some (snd x))"
          by (rule less.hyps)
        then show ?thesis using Some False by (simp add: walk_Cons)
      qed
    qed
  qed
qed

lemma findChunks_total:
  "\<exists>found. findChunks g root = Some found \<and> distinct (map fst found)
     \<and> (\<forall>x \<in> set found. map_of g (fst x) = Some (snd x))"
  unfolding findChunks_def by (rule walk_total) simp_all

lemma update_fresh: "k \<notin> fst ` set al \<Longrightarrow> AList.update k v al = al @ [(k, v)]"
  by (induction al) auto

lemma processChildChunk_skip:
  "files (snd x) = [] \<Longrightarrow> processChildChunk createHash makePlaceholder x st = Inr st"
  by (cases st) (simp add: processChildChunk.simps)

lemma processChildChunk_keys:
  assumes "processChildChunk createHash makePlaceholder x (this, c, assets, hm) =
             Inr (this', c', assets', hm')"
    and "files (snd x) \<noteq> []"
  shows "\<exists>i. hm' = AList.update (fst x) i hm"
  using assms
  by (auto simp: processChildChunk.simps rewriteChunkAsset.simps Let_def split_beta
           split: list.splits option.splits sum.splits if_splits)

lemma forEach_keys:
  assumes "forEach (processChildChunk createHash makePlaceholder) xs (this, c, assets, hm) =
             Inr (this', c', assets', hm')"
    and "distinct (map fst xs)" and "fst ` set hm \<inter> fst ` set xs = {}"
  shows "map fst hm' = map fst hm @ map fst (filter (\<lambda>x. files (snd x) \<noteq> []) xs)"
  using assms
proof (induction xs arbitrary: this c assets hm)
  case Nil
  then show ?case by simp
next
  case (Cons x xs)
  from Cons.prems(1) obtain st1 where
    s1: "processChildChunk createHash makePlaceholder x (this, c, assets, hm) = Inr st1"
    and r: "forEach (processChildChunk createHash makePlaceholder) xs st1 =
              Inr (this', c', assets', hm')"
    by (auto split: sum.splits)
  obtain t1 c1 a1 h1 where st1: "st1 = (t1, c1, a1, h1)" by (cases st1) auto
  show ?case
  proof (cases "files (snd x) = []")
    case True
    then have "st1 = (this, c, assets, hm)"
      using s1 by (simp add: processChildChunk_skip)
    then show ?thesis using Cons.IH [of this c assets hm] r Cons.prems True by auto
  next
    case False
    then obtain i where "h1 = AList.update (fst x) i hm"
      using processChildChunk_keys s1 st1 by blast
    moreover have "fst x \<notin> fst ` set hm" using Cons.prems(3) by auto
    ultimately have h1: "h1 = hm @ [(fst x, i)]" by (simp add: update_fresh)
    have "fst ` set h1 \<inter> fst ` set xs = {}"
      using Cons.prems(2,3) h1 by auto
    then have "map fst hm' = map fst h1 @ map fst (filter (\<lambda>x. files (snd x) \<noteq> []) xs)"
      using Cons.IH [of t1 c1 a1 h1] r st1 Cons.prems(2) by auto
    then show ?thesis using h1 False by simp
  qed
qed

lemma succeededE:
  "succeeded r \<Longrightarrow> \<exists>this' c' assets' hm. r = Some (Inr (this', c', assets', hm))"
  by (auto simp: succeeded_def split: option.splits sum.splits)

text \<open>
  C2. On every chunk graph, with or without cycles, the traversal returns, and so does
  \<open>processChunk\<close>; no chunk id occurs twice in the sequence the traversal returns;
  \<open>processChunk\<close> runs its callback once on each chunk of that sequence, in reverse
  order; and when it ends without an exception, the keys of \<open>hashByChunkId\<close> are, in
  this order and each once, the ids of the chunks of the sequence that have files.
\<close>

theorem traversal_terminates_once:
  "\<exists>found. findChunks g root = Some found
     \<and> distinct (map fst found)
     \<and> processChunk createHash makePlaceholder this g root c assets =
         Some (forEach (processChildChunk createHash makePlaceholder) (rev found)
                 (this, c, assets, []))
     \<and> (\<forall>this' c' assets' hashByChunkId.
          processChunk createHash makePlaceholder this g root c assets =
            Some (Inr (this', c', assets', hashByChunkId)) \<longrightarrow>
          map fst hashByChunkId = map fst (filter (\<lambda>x. files (snd x) \<noteq> []) (rev found)))"
proof -
  obtain found where f: "findChunks g root = Some found" and d: "distinct (map fst found)"
    using findChunks_total by blast
  have p: "processChunk createHash makePlaceholder this g root c assets =
         Some (forEach (processChildChunk createHash makePlaceholder) (rev found)
                 (this, c, assets, []))"
    using f by (simp add: processChunk_def)
  have "map fst hm = map fst (filter (\<lambda>x. files (snd x) \<noteq> []) (rev found))"
    if "forEach (processChildChunk createHash makePlaceholder) (rev found)
                 (this, c, assets, []) = Inr (this', c', assets', hm)"
    for this' c' assets' hm
    using forEach_keys [OF that] d by (simp add: distinct_rev rev_map [symmetric])
  then show ?thesis using f d p by auto
qed

theorem traversal_terminates_once_witness:
  "\<exists>this' c' assets' hm.
     processChunk demo_createHash demo_makePlaceholder (demo_plugin [JStr ''sha256''])
       cycle_graph ''A'' cycle_compilation cycle_assets = Some (Inr (this', c', assets', hm))
     \<and> map fst hm = [''B'', ''A'']"
proof -
  have "succeeded (processChunk demo_createHash demo_makePlaceholder
                     (demo_plugin [JStr ''sha256'']) cycle_graph ''A'' cycle_compilation
                     cycle_assets)"
    by code_simp
  then obtain this' c' assets' hm where r:
    "processChunk demo_createHash demo_makePlaceholder (demo_plugin [JStr ''sha256''])
       cycle_graph ''A'' cycle_compilation cycle_assets = Some (Inr (this', c', assets', hm))"
    using succeededE by blast
  have f: "findChunks cycle_graph ''A'' = Some cycle_graph"
    by (simp add: findChunks_def walk_Cons walk_Nil cycle_graph_def)
  from traversal_terminates_once [of cycle_graph "''A''" demo_createHash demo_makePlaceholder
      "demo_plugin [JStr ''sha256'']" cycle_compilation cycle_assets] r f
  have "map fst hm = map fst (filter (\<lambda>x. files (snd x) \<noteq> []) (rev cycle_graph))"
    by auto
  then have "map fst hm = [''B'', ''A'']" by (simp add: cycle_graph_def)
  with r show ?thesis by simp
qed

text \<open>
  C7. The callback of \<open>processChunk\<close> on a chunk without output files returns at once,
  without an exception and with the plugin, the compilation, the assets and
  \<open>hashByChunkId\<close> as they were; and when \<open>processChunk\<close> ends without an exception, the
  id of a chunk of the traversal that has no files is not a key of \<open>hashByChunkId\<close>.
\<close>

theorem empty_chunk_skipped:
  "(files (snd x) = [] \<longrightarrow> processChildChunk createHash makePlaceholder x st = Inr st)
   \<and> (findChunks g root = Some found \<and> x \<in> set found \<and> files (snd x) = [] \<and>
       processChunk createHash makePlaceholder this g root c assets =
         Some (Inr (this', c', assets', hashByChunkId))
       \<longrightarrow> fst x \<notin> fst ` set hashByChunkId)"
proof -
  have "fst x \<notin> fst ` set hashByChunkId"
    if f: "findChunks g root = Some found" and x: "x \<in> set found" and e: "files (snd x) = []"
      and p: "processChunk createHash makePlaceholder this g root c assets =
         Some (Inr (this', c', assets', hashByChunkId))"
  proof -
    have d: "distinct (map fst found)" using findChunks_total [of g root] f by auto
    have "forEach (processChildChunk createHash makePlaceholder) (rev found)
            (this, c, assets, []) = Inr (this', c', assets', hashByChunkId)"
      using p f by (simp add: processChunk_def)
    from forEach_keys [OF this] d
    have k: "map fst hashByChunkId = map fst (filter (\<lambda>x. files (snd x) \<noteq> []) (rev found))"
      by (simp add: distinct_rev rev_map [symmetric])
    have "fst x \<notin> fst ` set (filter (\<lambda>x. files (snd x) \<noteq> []) (rev found))"
    proof
      assume "fst x \<in> fst ` set (filter (\<lambda>x. files (snd x) \<noteq> []) (rev found))"
      then obtain y where y: "y \<in> set found" "files (snd y) \<noteq> []" "fst y = fst x" by auto
      with d x have "y = x" by (meson eq_key_imp_eq_value distinct_map inj_onD)
      with y e show False by simp
    qed
    moreover have "fst ` set hashByChunkId = set (map fst hashByChunkId)" by simp
    ultimately show ?thesis unfolding k by simp
  qed
  then show ?thesis by (auto simp: processChildChunk_skip)
qed

theorem empty_chunk_skipped_witness:
  "processChildChunk demo_createHash demo_makePlaceholder
     (''E'', \<lparr>files = [], children = []\<rparr>)
     (demo_plugin [JStr ''sha256''], cycle_compilation, cycle_assets, [])
   = Inr (demo_plugin [JStr ''sha256''], cycle_compilation, cycle_assets, [])
   \<and> (\<exists>this' c' assets' hm.
        processChunk demo_createHash demo_makePlaceholder (demo_plugin [JStr ''sha256''])
          empty_files_graph ''A'' cycle_compilation cycle_assets
          = Some (Inr (this', c', assets', hm))
        \<and> ''E'' \<notin> fst ` set hm)"
proof -
  have "succeeded (processChunk demo_createHash demo_makePlaceholder
                     (demo_plugin [JStr ''sha256'']) empty_files_graph ''A''
                     cycle_compilation cycle_assets)"
    by code_simp
  then obtain this' c' assets' hm where r:
    "processChunk demo_createHash demo_makePlaceholder (demo_plugin [JStr ''sha256''])
       empty_files_graph ''A'' cycle_compilation cycle_assets
       = Some (Inr (this', c', assets', hm))"
    using succeededE by blast
  have f: "findChunks empty_files_graph ''A'' = Some empty_files_graph"
    by (simp add: findChunks_def walk_Cons walk_Nil empty_files_graph_def)
  have "''E'' \<notin> fst ` set hm"
    using empty_chunk_skipped [of "(''E'', \<lparr>files = [], children = []\<rparr>)"
        demo_createHash demo_makePlaceholder _ empty_files_graph "''A''" empty_files_graph
        "demo_plugin [JStr ''sha256'']" cycle_compilation cycle_assets this' c' assets' hm]
      r f
    by (simp add: empty_files_graph_def)
  moreover have "processChildChunk demo_createHash demo_makePlaceholder
     (''E'', \<lparr>files = [], children = []\<rparr>)
     (demo_plugin [JStr ''sha256''], cycle_compilation, cycle_assets, [])
   = Inr (demo_plugin [JStr ''sha256''], cycle_compilation, cycle_assets, [])"
    using empty_chunk_skipped [of "(''E'', \<lparr>files = [], children = []\<rparr>)"
        demo_createHash demo_makePlaceholder
        "(demo_plugin [JStr ''sha256''], cycle_compilation, cycle_assets, [])"]
    by simp
  ultimately show ?thesis using r by simp
qed

section \<open>The final pass\<close>

lemma integrity_entries_ok:
  "\<forall>n \<in> set hs. \<not> isl (createHash (JStr n)) \<Longrightarrow>
     \<exists>es. integrity_entries createHash hs bytes = Inr es \<and> length es = length hs
        \<and> (\<forall>e \<in> set es. e \<noteq> [])"
  by (induction hs) (auto split: sum.splits)

lemma join_nonempty: "es \<noteq> [] \<Longrightarrow> \<forall>e \<in> set es. e \<noteq> [] \<Longrightarrow> join sep es \<noteq> []"
  by (cases es) (auto simp: join_def)

lemma computeIntegrity_ok:
  assumes "\<forall>n \<in> set hs. \<not> isl (createHash (JStr n))"
  shows "\<exists>i. computeIntegrity createHash hs bytes = Inr i \<and> (hs \<noteq> [] \<longrightarrow> i \<noteq> [])"
proof -
  obtain es where es: "integrity_entries createHash hs bytes = Inr es" "length es = length hs"
    "\<forall>e \<in> set es. e \<noteq> []"
    using integrity_entries_ok [OF assms] by blast
  then have "hs \<noteq> [] \<Longrightarrow> join '' '' es \<noteq> []"
    by (intro join_nonempty) auto
  with es show ?thesis by (simp add: computeIntegrity_def)
qed

lemma update_append_fresh:
  "k \<notin> fst ` set xs \<Longrightarrow> AList.update k v (xs @ (k, a) # ys) = xs @ (k, v) # ys"
  by (induction xs) auto

lemma map_of_append_fresh:
  "k \<notin> fst ` set xs \<Longrightarrow> map_of (xs @ (k, a) # ys) k = Some a"
  by (induction xs) auto

lemma addMissing_step:
  assumes "hashFuncNames_of this = Inr hs" and "\<forall>n \<in> set hs. \<not> isl (createHash (JStr n))"
    and "k \<notin> fst ` set xs"
  shows "addMissingIntegrityHash createHash this k (xs @ (k, a) # ys) =
           Inr (xs @ (k, filled createHash hs a) # ys)"
proof -
  obtain i where i: "computeIntegrity createHash hs (source a) = Inr i"
    using computeIntegrity_ok [OF assms(2)] by blast
  have m: "map_of (xs @ (k, a) # ys) k = Some a"
    by (rule map_of_append_fresh [OF assms(3)])
  show ?thesis
    unfolding addMissingIntegrityHash_def m
    using assms(1) i
    by (auto simp: update_append_fresh [OF assms(3)] filled_def)
qed

lemma addMissing_loop:
  assumes "hashFuncNames_of this = Inr hs" and "\<forall>n \<in> set hs. \<not> isl (createHash (JStr n))"
  shows "distinct (map fst (xs @ ys)) \<Longrightarrow>
     forEach (addMissingIntegrityHash createHash this) (map fst ys) (xs @ ys) =
       Inr (xs @ map (\<lambda>x. (fst x, filled createHash hs (snd x))) ys)"
proof (induction ys arbitrary: xs)
  case Nil
  then show ?case by simp
next
  case (Cons y ys)
  obtain k a where y: "y = (k, a)" by (cases y)
  have fresh: "k \<notin> fst ` set xs" using Cons.prems y by auto
  have d: "distinct (map fst ((xs @ [(k, filled createHash hs a)]) @ ys))"
    using Cons.prems y by auto
  show ?case
    using Cons.IH [OF d] addMissing_step [OF assms fresh, of a ys] y
    by simp
qed

lemma addMissing_closed:
  assumes "hashFuncNames_of this = Inr hs" and "\<forall>n \<in> set hs. \<not> isl (createHash (JStr n))"
    and "distinct (map fst assets)"
  shows "addMissingIntegrityHashes createHash this assets =
           Inr (map (\<lambda>x. (fst x, filled createHash hs (snd x))) assets)"
  using addMissing_loop [OF assms(1,2), of "[]" assets] assms(3)
  by (simp add: addMissingIntegrityHashes_def)

lemma addMissing_noop_step:
  "map_of assets k = Some a \<Longrightarrow> integrity a \<noteq> None \<Longrightarrow> integrity a \<noteq> Some [] \<Longrightarrow>
     addMissingIntegrityHash createHash this k assets = Inr assets"
  by (auto simp: addMissingIntegrityHash_def)

lemma addMissing_noop_loop:
  assumes "\<forall>x \<in> set assets. integrity (snd x) \<noteq> None \<and> integrity (snd x) \<noteq> Some []"
  shows "set ys \<subseteq> set assets \<Longrightarrow>
           forEach (addMissingIntegrityHash createHash this) (map fst ys) assets = Inr assets"
proof (induction ys)
  case Nil
  then show ?case by simp
next
  case (Cons y ys)
  then have "fst y \<in> fst ` set assets" by auto
  then obtain a where "map_of assets (fst y) = Some a"
    by (metis map_of_eq_None_iff not_Some_eq)
  moreover from this have "(fst y, a) \<in> set assets" by (rule map_of_SomeD)
  ultimately have "addMissingIntegrityHash createHash this (fst y) assets = Inr assets"
    using assms by (intro addMissing_noop_step) auto
  then show ?case using Cons by simp
qed

lemma filled_filled:
  "filled createHash hs (filled createHash hs a) = filled createHash hs a"
  by (cases a) (auto simp: filled_def)

text \<open>
  C5, as amended. With a list of names that is not empty and that the provider
  supports, on assets with distinct keys, \<open>addMissingIntegrityHashes\<close> ends without an
  exception; running it again on its result gives that result again, and does so with
  any provider and any options, even a provider that knows no algorithm: the second
  run computes nothing. Every asset of the result has a non-empty integrity; an asset
  that had a non-empty integrity keeps it, with its source, and each other asset gets
  the integrity of its source.
\<close>

theorem addMissingIntegrityHashes_idempotent:
  assumes "hashFuncNames_of this = Inr hs" and "\<forall>n \<in> set hs. \<not> isl (createHash (JStr n))"
    and "distinct (map fst assets)" and "hs \<noteq> []"
  shows "\<exists>assets'.
      addMissingIntegrityHashes createHash this assets = Inr assets'
      \<and> addMissingIntegrityHashes createHash this assets' = Inr assets'
      \<and> (\<forall>createHash' this'.
             addMissingIntegrityHashes createHash' this' assets' = Inr assets')
      \<and> (\<forall>x \<in> set assets'. integrity (snd x) \<noteq> None \<and> integrity (snd x) \<noteq> Some [])
      \<and> list_all2
          (\<lambda>x x'. fst x' = fst x \<and> source (snd x') = source (snd x)
             \<and> (if integrity (snd x) = None \<or> integrity (snd x) = Some []
                 then \<exists>i. computeIntegrity createHash hs (source (snd x)) = Inr i
                        \<and> integrity (snd x') = Some i
                 else snd x' = snd x))
          assets assets'"
proof -
  let ?f = "\<lambda>x. (fst x, filled createHash hs (snd x))"
  let ?A = "map ?f assets"
  have 1: "addMissingIntegrityHashes createHash this assets = Inr ?A"
    by (rule addMissing_closed [OF assms(1-3)])
  have d: "distinct (map fst ?A)" using assms(3) by (simp add: comp_def)
  have "addMissingIntegrityHashes createHash this ?A = Inr (map ?f ?A)"
    by (rule addMissing_closed [OF assms(1,2) d])
  then have 2: "addMissingIntegrityHashes createHash this ?A = Inr ?A"
    by (simp add: comp_def filled_filled)
  have ok: "\<exists>i. computeIntegrity createHash hs b = Inr i \<and> (hs \<noteq> [] \<longrightarrow> i \<noteq> [])" for b
    by (rule computeIntegrity_ok [OF assms(2)])
  have 4: "\<forall>x \<in> set ?A. integrity (snd x) \<noteq> None \<and> integrity (snd x) \<noteq> Some []"
  proof
    fix x assume "x \<in> set ?A"
    then obtain y where "y \<in> set assets" "x = ?f y" by auto
    then show "integrity (snd x) \<noteq> None \<and> integrity (snd x) \<noteq> Some []"
      using ok [of "source (snd y)"] assms(4) by (auto simp: filled_def)
  qed
  have 3: "addMissingIntegrityHashes createHash' this' ?A = Inr ?A" for createHash' this'
    using 4 unfolding addMissingIntegrityHashes_def
    by (intro addMissing_noop_loop) simp_all
  have 5: "list_all2
          (\<lambda>x x'. fst x' = fst x \<and> source (snd x') = source (snd x)
             \<and> (if integrity (snd x) = None \<or> integrity (snd x) = Some []
                 then \<exists>i. computeIntegrity createHash hs (source (snd x)) = Inr i
                        \<and> integrity (snd x') = Some i
                 else snd x' = snd x))
          assets ?A"
    unfolding list_all2_map2
  proof (rule list_all2_all_nthI [OF refl])
    fix n assume "n < length assets"
    show "fst (?f (assets ! n)) = fst (assets ! n) \<and>
          source (snd (?f (assets ! n))) = source (snd (assets ! n)) \<and>
          (if integrity (snd (assets ! n)) = None \<or> integrity (snd (assets ! n)) = Some []
           then \<exists>i. computeIntegrity createHash hs (source (snd (assets ! n))) = Inr i \<and>
                    integrity (snd (?f (assets ! n))) = Some i
           else snd (?f (assets ! n)) = snd (assets ! n))"
      using ok [of "source (snd (assets ! n))"] by (auto simp: filled_def)
  qed
  from 1 2 3 4 5 show ?thesis by blast
qed


theorem addMissingIntegrityHashes_idempotent_witness:
  "addMissingIntegrityHashes demo_createHash (demo_plugin [JStr ''sha256''])
     partly_hashed_assets
   = Inr [(''a.js'', \<lparr>source = ''console.log(1)'', integrity = Some ''sha256-14''\<rparr>),
          (''b.css'', \<lparr>source = ''body{}'', integrity = Some ''sha256-kept''\<rparr>)]
   \<and> addMissingIntegrityHashes failing_createHash (demo_plugin [])
       [(''a.js'', \<lparr>source = ''console.log(1)'', integrity = Some ''sha256-14''\<rparr>),
        (''b.css'', \<lparr>source = ''body{}'', integrity = Some ''sha256-kept''\<rparr>)]
     = Inr [(''a.js'', \<lparr>source = ''console.log(1)'', integrity = Some ''sha256-14''\<rparr>),
            (''b.css'', \<lparr>source = ''body{}'', integrity = Some ''sha256-kept''\<rparr>)]"
proof -
  have h: "hashFuncNames_of (demo_plugin [JStr ''sha256'']) = Inr [''sha256'']"
    by (simp add: hashFuncNames_of_def demo_plugin_def get_prop_def)
  have s: "\<forall>n \<in> set [''sha256'']. \<not> isl (demo_createHash (JStr n))"
    by (simp add: demo_createHash_def standardHashFuncNames_def)
  have d: "distinct (map fst partly_hashed_assets)"
    by (simp add: partly_hashed_assets_def)
  have e: "addMissingIntegrityHashes demo_createHash (demo_plugin [JStr ''sha256''])
     partly_hashed_assets
   = Inr [(''a.js'', \<lparr>source = ''console.log(1)'', integrity = Some ''sha256-14''\<rparr>),
          (''b.css'', \<lparr>source = ''body{}'', integrity = Some ''sha256-kept''\<rparr>)]"
    by code_simp
  have ne: "[''sha256''] \<noteq> []" by simp
  from addMissingIntegrityHashes_idempotent [OF h s d ne]
  obtain assets' where
    1: "addMissingIntegrityHashes demo_createHash (demo_plugin [JStr ''sha256''])
          partly_hashed_assets = Inr assets'"
    and 3: "\<forall>createHash' this'.
              addMissingIntegrityHashes createHash' this' assets' = Inr assets'"
    by (elim exE conjE)
  from 3 have "addMissingIntegrityHashes failing_createHash (demo_plugin []) assets'
                 = Inr assets'"
    by (elim allE)
  moreover from 1 e have
    "assets' = [(''a.js'', \<lparr>source = ''console.log(1)'', integrity = Some ''sha256-14''\<rparr>),
                (''b.css'', \<lparr>source = ''body{}'', integrity = Some ''sha256-kept''\<rparr>)]"
    by (simp only: sum.inject)
  ultimately show ?thesis using e by (simp only: simp_thms)
qed

text \<open>
  C5 as stated fails: an empty list of names passes the validation and the hooks are
  registered; the run then gives each asset the empty string as its integrity, which
  the test \<open>!asset.integrity\<close> takes for a missing one, so the asset has no integrity
  value after the run and the next run computes its integrity again.
\<close>

theorem empty_algorithm_list_counterexample:
  "snd (snd (thisCompilation demo_createHash (demo_plugin []) demo_compilation))
   \<and> addMissingIntegrityHashes demo_createHash (demo_plugin []) unhashed_assets
       = Inr [(''a.js'', \<lparr>source = ''console.log(1)'', integrity = Some []\<rparr>)]
   \<and> addMissingIntegrityHashes demo_createHash (demo_plugin [JStr ''sha256''])
         [(''a.js'', \<lparr>source = ''console.log(1)'', integrity = Some []\<rparr>)]
       = Inr [(''a.js'', \<lparr>source = ''console.log(1)'', integrity = Some ''sha256-14''\<rparr>)]"
  by code_simp

section \<open>The callback of processChunk\<close>

lemma warnOnce_frame:
  "options (fst (warnOnce this c m)) = options this"
  "sriChunkAssets (snd (warnOnce this c m)) = sriChunkAssets c"
  "errors (snd (warnOnce this c m)) = errors c"
  "m \<in> emittedMessages (fst (warnOnce this c m))"
  by (simp_all add: warnOnce_def emitMessageOnce_def)

lemma warnOnce_warnings:
  "set (warnings c) \<subseteq> set (warnings (snd (warnOnce this c m)))"
  by (auto simp: warnOnce_def emitMessageOnce_def emitMessage_def)

lemma warnIfHotUpdate_frame:
  "options (fst (warnIfHotUpdate this c s)) = options this"
  "sriChunkAssets (snd (warnIfHotUpdate this c s)) = sriChunkAssets c"
  "errors (snd (warnIfHotUpdate this c s)) = errors c"
  "emittedMessages this \<subseteq> emittedMessages (fst (warnIfHotUpdate this c s))"
  "set (warnings c) \<subseteq> set (warnings (snd (warnIfHotUpdate this c s)))"
  using warnOnce_warnings [of c this hotUpdateMessage]
  by (auto simp: warnIfHotUpdate_def warnOnce_frame warnOnce_def emitMessageOnce_def)

lemma hashFuncNames_of_warn:
  "hashFuncNames_of (fst (warnOnce this c m)) = hashFuncNames_of this"
  "hashFuncNames_of (fst (warnIfHotUpdate this c s)) = hashFuncNames_of this"
  by (simp_all add: hashFuncNames_of_def warnOnce_frame warnIfHotUpdate_frame)

lemma rewriteChunkAsset_result:
  assumes "rewriteChunkAsset createHash makePlaceholder cid sp (this, c, assets, hm) =
             Inr (this', c', assets', hm')"
  shows "(this', c') = warnIfHotUpdate this c (source (the (map_of assets sp)))"
  using assms
  by (auto simp: rewriteChunkAsset.simps split_beta
           split: option.splits sum.splits)

lemma rewriteChunkAsset_ok:
  assumes "map_of assets sp = Some a" and "hashFuncNames_of this = Inr hs"
    and "\<forall>n \<in> set hs. \<not> isl (createHash (JStr n))"
  shows "\<exists>i. rewriteChunkAsset createHash makePlaceholder cid sp (this, c, assets, hm) =
           Inr (fst (warnIfHotUpdate this c (source a)),
                snd (warnIfHotUpdate this c (source a)),
                AList.update sp
                  \<lparr>source = rewritten makePlaceholder hs hm (source a), integrity = Some i\<rparr>
                  assets,
                AList.update cid i hm)
         \<and> computeIntegrity createHash hs (rewritten makePlaceholder hs hm (source a)) = Inr i"
proof -
  obtain i where
    i: "computeIntegrity createHash hs (rewritten makePlaceholder hs hm (source a)) = Inr i"
    using computeIntegrity_ok [OF assms(3)] by blast
  have h: "hashFuncNames_of (fst (warnIfHotUpdate this c (source a))) = Inr hs"
    using assms(2) by (simp add: hashFuncNames_of_warn)
  show ?thesis
    using assms(1) i h
    by (simp add: rewriteChunkAsset.simps split_beta replaceAsset_def Let_def rewritten_def)
qed

lemma processChildChunk_mismatch:
  assumes "files (snd childChunk) = file0 # others" and "sourcePathMismatch c childChunk"
  shows "processChildChunk createHash makePlaceholder childChunk (this, c, assets, hm) =
           rewriteChunkAsset createHash makePlaceholder (fst childChunk) file0
             (fst (warnOnce this c
                     (cannotDetermineMessage (fst childChunk)
                        (sriChunkAssets c (fst childChunk)) file0)),
              snd (warnOnce this c
                     (cannotDetermineMessage (fst childChunk)
                        (sriChunkAssets c (fst childChunk)) file0)),
              assets, hm)"
  using assms
  by (simp add: processChildChunk.simps resolvedSourcePath_def split_beta
           split: option.splits)

lemma processChildChunk_match:
  assumes "files (snd childChunk) = file0 # others" and "\<not> sourcePathMismatch c childChunk"
  shows "processChildChunk createHash makePlaceholder childChunk (this, c, assets, hm) =
           rewriteChunkAsset createHash makePlaceholder (fst childChunk)
             (resolvedSourcePath c childChunk file0) (this, c, assets, hm)"
  using assms
  by (simp add: processChildChunk.simps)

text \<open>
  C8, as amended. For a chunk with files whose entry in \<open>sriChunkAssets\<close> is missing or not one of
  its files, the callback of \<open>processChunk\<close> calls \<open>warnOnce\<close> with the message about the
  chunk and then does with the chunk's first file what it does with a resolved path.
  The warning goes to the warnings, never to the errors: it is appended unless the
  plugin has emitted the same message before. When the callback ends without an
  exception, the errors are as before and the message is in the memo; and when the
  first file is among the assets and the names are supported, it does end so, with
  that asset rewritten and hashed and the chunk's entry in \<open>hashByChunkId\<close>.
\<close>

theorem mismatch_warns_and_falls_back:
  assumes "files (snd childChunk) = file0 # others"
    and "sourcePathMismatch c childChunk"
    and "message = cannotDetermineMessage (fst childChunk) (sriChunkAssets c (fst childChunk)) file0"
  shows "processChildChunk createHash makePlaceholder childChunk (this, c, assets, hm) =
           rewriteChunkAsset createHash makePlaceholder (fst childChunk) file0
             (fst (warnOnce this c message), snd (warnOnce this c message), assets, hm)
         \<and> errors (snd (warnOnce this c message)) = errors c
         \<and> warnings (snd (warnOnce this c message)) =
             (if message \<in> emittedMessages this then warnings c
              else warnings c @ [''webpack-subresource-integrity: '' @ message])
         \<and> (\<forall>this' c' assets' hm'.
               processChildChunk createHash makePlaceholder childChunk (this, c, assets, hm) =
                 Inr (this', c', assets', hm') \<longrightarrow>
               errors c' = errors c
               \<and> message \<in> emittedMessages this'
               \<and> (message \<notin> emittedMessages this \<longrightarrow>
                    ''webpack-subresource-integrity: '' @ message \<in> set (warnings c')))
         \<and> (\<forall>a hs. map_of assets file0 = Some a \<and> hashFuncNames_of this = Inr hs
                    \<and> (\<forall>n \<in> set hs. \<not> isl (createHash (JStr n))) \<longrightarrow>
               (\<exists>this' c' i.
                  processChildChunk createHash makePlaceholder childChunk (this, c, assets, hm) =
                    Inr (this', c',
                         AList.update file0
                           \<lparr>source = ReplaceSource_source (source a)
                                       (fold (replaceMagicMarkers makePlaceholder hs (source a))
                                          hm []),
                            integrity = Some i\<rparr> assets,
                         AList.update (fst childChunk) i hm)))"
proof -
  let ?w = "warnOnce this c message"
  have 1: "processChildChunk createHash makePlaceholder childChunk (this, c, assets, hm) =
           rewriteChunkAsset createHash makePlaceholder (fst childChunk) file0
             (fst ?w, snd ?w, assets, hm)"
    using processChildChunk_mismatch [OF assms(1,2)] assms(3) by simp
  have 2: "errors (snd ?w) = errors c" by (rule warnOnce_frame)
  have 3: "warnings (snd ?w) =
             (if message \<in> emittedMessages this then warnings c
              else warnings c @ [''webpack-subresource-integrity: '' @ message])"
    by (simp add: warnOnce_def emitMessageOnce_def emitMessage_def)
  have 4: "errors c' = errors c \<and> message \<in> emittedMessages this'
               \<and> (message \<notin> emittedMessages this \<longrightarrow>
                    ''webpack-subresource-integrity: '' @ message \<in> set (warnings c'))"
    if "processChildChunk createHash makePlaceholder childChunk (this, c, assets, hm) =
                 Inr (this', c', assets', hm')" for this' c' assets' hm'
  proof -
    from that 1 have "rewriteChunkAsset createHash makePlaceholder (fst childChunk) file0
             (fst ?w, snd ?w, assets, hm) = Inr (this', c', assets', hm')" by simp
    then have r: "(this', c') =
        warnIfHotUpdate (fst ?w) (snd ?w) (source (the (map_of assets file0)))"
      by (rule rewriteChunkAsset_result)
    let ?s = "source (the (map_of assets file0))"
    have t: "this' = fst (warnIfHotUpdate (fst ?w) (snd ?w) ?s)"
      and c: "c' = snd (warnIfHotUpdate (fst ?w) (snd ?w) ?s)"
      using r by (metis fst_conv, metis snd_conv)
    have e: "errors c' = errors c" unfolding c by (simp add: warnIfHotUpdate_frame 2)
    have "message \<in> emittedMessages (fst ?w)" by (rule warnOnce_frame)
    then have m: "message \<in> emittedMessages this'"
      unfolding t using warnIfHotUpdate_frame(4) [of "fst ?w" "snd ?w" ?s] by (rule set_mp [rotated])
    have w: "''webpack-subresource-integrity: '' @ message \<in> set (warnings c')"
      if n: "message \<notin> emittedMessages this"
    proof -
      have "''webpack-subresource-integrity: '' @ message \<in> set (warnings (snd ?w))"
        unfolding 3 using n by simp
      then show ?thesis
        unfolding c using warnIfHotUpdate_frame(5) [of "snd ?w" "fst ?w" ?s]
        by (rule set_mp [rotated])
    qed
    show ?thesis
    proof (intro conjI impI)
      show "errors c' = errors c" by (rule e)
      show "message \<in> emittedMessages this'" by (rule m)
      show "''webpack-subresource-integrity: '' @ message \<in> set (warnings c')"
        if "message \<notin> emittedMessages this" using that by (rule w)
    qed
  qed
  have 5: "\<exists>this' c' i.
                  processChildChunk createHash makePlaceholder childChunk (this, c, assets, hm) =
                    Inr (this', c',
                         AList.update file0
                           \<lparr>source = ReplaceSource_source (source a)
                                       (fold (replaceMagicMarkers makePlaceholder hs (source a))
                                          hm []),
                            integrity = Some i\<rparr> assets,
                         AList.update (fst childChunk) i hm)"
    if "map_of assets file0 = Some a" "hashFuncNames_of this = Inr hs"
       "\<forall>n \<in> set hs. \<not> isl (createHash (JStr n))" for a hs
  proof -
    have "hashFuncNames_of (fst ?w) = Inr hs"
      using that(2) by (simp add: hashFuncNames_of_warn)
    from rewriteChunkAsset_ok [OF that(1) this that(3), of makePlaceholder "fst childChunk"
        "snd ?w" hm]
    obtain i where "rewriteChunkAsset createHash makePlaceholder (fst childChunk) file0
        (fst ?w, snd ?w, assets, hm) =
           Inr (fst (warnIfHotUpdate (fst ?w) (snd ?w) (source a)),
                snd (warnIfHotUpdate (fst ?w) (snd ?w) (source a)),
                AList.update file0
                  \<lparr>source = rewritten makePlaceholder hs hm (source a), integrity = Some i\<rparr>
                  assets,
                AList.update (fst childChunk) i hm)"
      by (elim exE conjE)
    then show ?thesis unfolding 1 rewritten_def by (intro exI)
  qed
  show ?thesis
  proof (intro conjI allI impI)
    show "processChildChunk createHash makePlaceholder childChunk (this, c, assets, hm) =
           rewriteChunkAsset createHash makePlaceholder (fst childChunk) file0
             (fst (warnOnce this c message), snd (warnOnce this c message), assets, hm)"
      by (rule 1)
    show "errors (snd (warnOnce this c message)) = errors c" by (rule 2)
    show "warnings (snd (warnOnce this c message)) =
             (if message \<in> emittedMessages this then warnings c
              else warnings c @ [''webpack-subresource-integrity: '' @ message])"
      by (rule 3)
  next
    fix this' c' assets' hm'
    assume p: "processChildChunk createHash makePlaceholder childChunk (this, c, assets, hm) =
                 Inr (this', c', assets', hm')"
    show "errors c' = errors c" using 4 [OF p] by (elim conjE)
    show "message \<in> emittedMessages this'" using 4 [OF p] by (elim conjE)
    show "''webpack-subresource-integrity: '' @ message \<in> set (warnings c')"
      if "message \<notin> emittedMessages this"
      using 4 [OF p] that by (elim conjE impE)
  next
    fix a hs
    assume "map_of assets file0 = Some a \<and> hashFuncNames_of this = Inr hs
                    \<and> (\<forall>n \<in> set hs. \<not> isl (createHash (JStr n)))"
    then show "\<exists>this' c' i.
                  processChildChunk createHash makePlaceholder childChunk (this, c, assets, hm) =
                    Inr (this', c',
                         AList.update file0
                           \<lparr>source = ReplaceSource_source (source a)
                                       (fold (replaceMagicMarkers makePlaceholder hs (source a))
                                          hm []),
                            integrity = Some i\<rparr> assets,
                         AList.update (fst childChunk) i hm)"
      using 5 by (elim conjE)
  qed
qed


theorem mismatch_warns_and_falls_back_witness:
  "\<exists>this' c' assets' i.
     processChildChunk demo_createHash demo_makePlaceholder
       (''B'', \<lparr>files = [''b.js''], children = [''A'']\<rparr>)
       (demo_plugin [JStr ''sha256''], mismatch_compilation, cycle_assets, [])
     = Inr (this', c', assets', [(''B'', i)])
     \<and> errors c' = []
     \<and> ''webpack-subresource-integrity: '' @
           cannotDetermineMessage ''B'' (Some ''stale.js'') ''b.js'' \<in> set (warnings c')
     \<and> map_option integrity (map_of assets' ''b.js'') = Some (Some i)"
proof -
  let ?x = "(''B'', \<lparr>files = [''b.js''], children = [''A'']\<rparr>)"
  let ?m = "cannotDetermineMessage ''B'' (Some ''stale.js'') ''b.js''"
  have f: "files (snd ?x) = ''b.js'' # []" by simp
  have mm: "sourcePathMismatch mismatch_compilation ?x"
    by (simp add: sourcePathMismatch_def mismatch_compilation_def)
  have msg: "?m = cannotDetermineMessage (fst ?x)
                    (sriChunkAssets mismatch_compilation (fst ?x)) ''b.js''"
    by (simp add: mismatch_compilation_def)
  have h: "hashFuncNames_of (demo_plugin [JStr ''sha256'']) = Inr [''sha256'']"
    by (simp add: hashFuncNames_of_def demo_plugin_def get_prop_def)
  have s: "\<forall>n \<in> set [''sha256'']. \<not> isl (demo_createHash (JStr n))"
    by (simp add: demo_createHash_def standardHashFuncNames_def)
  have a: "map_of cycle_assets ''b.js'' =
             Some \<lparr>source = ''load('' @ demo_makePlaceholder [''sha256''] ''A'' @ '')'',
                   integrity = None\<rparr>"
    by (simp add: cycle_assets_def)
  have n: "?m \<notin> emittedMessages (demo_plugin [JStr ''sha256''])"
    by (simp add: demo_plugin_def)
  note t = mismatch_warns_and_falls_back [OF f mm msg, of demo_createHash demo_makePlaceholder
      "demo_plugin [JStr ''sha256'']" cycle_assets "[]"]
  from t [THEN conjunct2, THEN conjunct2, THEN conjunct2, THEN conjunct2, rule_format,
      OF conjI [OF a conjI [OF h s]]]
  obtain this' c' i where r:
    "processChildChunk demo_createHash demo_makePlaceholder ?x
       (demo_plugin [JStr ''sha256''], mismatch_compilation, cycle_assets, []) =
       Inr (this', c',
            AList.update ''b.js''
              \<lparr>source = ReplaceSource_source
                          (source \<lparr>source = ''load('' @ demo_makePlaceholder [''sha256''] ''A'' @ '')'',
                                   integrity = None\<rparr>)
                          (fold (replaceMagicMarkers demo_makePlaceholder [''sha256'']
                             (source \<lparr>source = ''load('' @ demo_makePlaceholder [''sha256''] ''A'' @ '')'',
                                   integrity = None\<rparr>)) [] []),
               integrity = Some i\<rparr> cycle_assets,
            AList.update (fst ?x) i [])"
    by (elim exE)
  note q = t [THEN conjunct2, THEN conjunct2, THEN conjunct2, THEN conjunct1, rule_format,
      OF r]
  have e: "errors c' = errors mismatch_compilation" using q by (elim conjE)
  have "?m \<notin> emittedMessages (demo_plugin [JStr ''sha256'']) \<longrightarrow>
           ''webpack-subresource-integrity: '' @ ?m \<in> set (warnings c')"
    using q by (elim conjE)
  then have w: "''webpack-subresource-integrity: '' @ ?m \<in> set (warnings c')"
    using n by (rule mp)
  note e w
  then show ?thesis using r by (simp add: update_conv' mismatch_compilation_def)
qed


text \<open>
  C8 as stated fails: in a second build of the same plugin, with the same table and
  the same chunk, \<open>processChunk\<close> falls back to the first file and hashes the chunks as
  before, and adds no warning to the new compilation.
\<close>

theorem repeated_mismatch_counterexample:
  "sourcePathMismatch mismatch_compilation (''B'', \<lparr>files = [''b.js''], children = [''A'']\<rparr>)
   \<and> final_warnings
        (processChunk demo_createHash demo_makePlaceholder (demo_plugin [JStr ''sha256''])
           cycle_graph ''A'' mismatch_compilation cycle_assets)
       = Some [''webpack-subresource-integrity: '' @
                 cannotDetermineMessage ''B'' (Some ''stale.js'') ''b.js'']
   \<and> final_warnings
        (processChunk demo_createHash demo_makePlaceholder plugin_after_mismatch_build
           cycle_graph ''A'' mismatch_compilation cycle_assets)
       = Some []
   \<and> final_hashes
        (processChunk demo_createHash demo_makePlaceholder plugin_after_mismatch_build
           cycle_graph ''A'' mismatch_compilation cycle_assets)
       = [(''B'', ''sha256-35''), (''A'', ''sha256-15'')]"
  by code_simp

section \<open>Searching and replacing\<close>

lemma indexOf_prefix: "take (length m) s = m \<Longrightarrow> indexOf s m = Some 0"
  by (cases s) auto

lemma indexOf_complete: "indexOf (pre @ m @ post) m \<noteq> None"
proof (induction pre)
  case Nil
  show ?case using indexOf_prefix [of m "m @ post"] by simp
next
  case (Cons x pre)
  then show ?case by auto
qed

lemma indexOf_sound:
  "indexOf s m = Some p \<Longrightarrow> s = take p s @ m @ drop (p + length m) s"
proof (induction s arbitrary: p)
  case Nil
  then show ?case by (auto split: if_splits)
next
  case (Cons x xs)
  show ?case
  proof (cases "take (length m) (x # xs) = m")
    case True
    then have "p = 0" using Cons.prems by simp
    moreover have "x # xs = m @ drop (length m) (x # xs)"
      using True by (metis append_take_drop_id)
    ultimately show ?thesis by simp
  next
    case False
    then obtain q where q: "indexOf xs m = Some q" "p = Suc q"
      using Cons.prems by auto
    from Cons.IH [OF q(1)] have "xs = take q xs @ m @ drop (q + length m) xs" .
    then show ?thesis using q(2) by simp
  qed
qed

lemma replaceString_contains:
  "r \<in> set rs \<Longrightarrow> \<exists>pre post. replaceString rs s = pre @ fst (snd (snd r)) @ post"
proof (induction rs arbitrary: s)
  case Nil
  then show ?case by simp
next
  case (Cons x rs)
  obtain st en co ix where x: "x = (st, en, co, ix)" by (cases x)
  show ?case
  proof (cases "r = x")
    case True
    then show ?thesis using x by (auto simp: Let_def)
  next
    case False
    then have "r \<in> set rs" using Cons.prems by simp
    from Cons.IH [OF this, of "fst (splitString (fst (splitString s (en + 1))) st)"]
    obtain pre post where
      "replaceString rs (fst (splitString (fst (splitString s (en + 1))) st)) =
         pre @ fst (snd (snd r)) @ post" by blast
    then have "replaceString (x # rs) s =
         pre @ fst (snd (snd r)) @ (post @ co @ snd (splitString s (en + 1)))"
      using x by (simp add: Let_def)
    then show ?thesis by blast
  qed
qed

lemma set_insert_replacement: "set (insert_replacement r rs) = insert r (set rs)"
  by (induction rs) auto

lemma set_sortReplacements: "set (sortReplacements rs) = set rs"
  unfolding sortReplacements_def by (induction rs) (auto simp: set_insert_replacement)

lemma replaceMagicMarkers_mono:
  "set acc \<subseteq> set (replaceMagicMarkers mk hs src x acc)"
  by (auto simp: replaceMagicMarkers_def Let_def replace_def split: option.splits)

lemma fold_markers_mono:
  "set acc \<subseteq> set (fold (replaceMagicMarkers mk hs src) hm acc)"
proof (induction hm arbitrary: acc)
  case Nil
  then show ?case by simp
next
  case (Cons x hm)
  show ?case
    using Cons [of "replaceMagicMarkers mk hs src x acc"]
      replaceMagicMarkers_mono [of acc mk hs src x]
    by auto
qed

lemma fold_markers_found:
  assumes "(cid, h) \<in> set hm" and "indexOf src (mk hs cid) = Some p"
  shows "\<exists>r \<in> set (fold (replaceMagicMarkers mk hs src) hm acc). fst (snd (snd r)) = h"
  using assms(1)
proof (induction hm arbitrary: acc)
  case Nil
  then show ?case by simp
next
  case (Cons x hm)
  show ?case
  proof (cases "x = (cid, h)")
    case True
    let ?r = "(int p, (int p + int (length (mk hs cid))) - 1, h, length acc)"
    have "?r \<in> set (replaceMagicMarkers mk hs src x acc)"
      using True assms(2) by (simp add: replaceMagicMarkers_def replace_def)
    then have "?r \<in> set (fold (replaceMagicMarkers mk hs src) hm
                          (replaceMagicMarkers mk hs src x acc))"
      using fold_markers_mono by (rule set_mp [rotated])
    then have "?r \<in> set (fold (replaceMagicMarkers mk hs src) (x # hm) acc)" by simp
    moreover have "fst (snd (snd ?r)) = h" by simp
    ultimately show ?thesis by (rule bexI [rotated])
  next
    case False
    then have "(cid, h) \<in> set hm" using Cons.prems by simp
    from Cons.IH [OF this, of "replaceMagicMarkers mk hs src x acc"]
    show ?thesis by simp
  qed
qed

lemma rewritten_contains:
  assumes "(cid, h) \<in> set hm" and "indexOf src (mk hs cid) \<noteq> None"
  shows "indexOf (rewritten mk hs hm src) h \<noteq> None"
proof -
  obtain p where p: "indexOf src (mk hs cid) = Some p" using assms(2) by auto
  obtain r where r: "r \<in> set (fold (replaceMagicMarkers mk hs src) hm [])"
    "fst (snd (snd r)) = h"
    using fold_markers_found [of cid h hm src mk hs p "[]", OF assms(1) p] by blast
  then have "r \<in> set (sortReplacements (fold (replaceMagicMarkers mk hs src) hm []))"
    by (simp add: set_sortReplacements)
  from replaceString_contains [OF this, of src] r(2)
  obtain pre post where "rewritten mk hs hm src = pre @ h @ post"
    unfolding rewritten_def ReplaceSource_source_def by blast
  then show ?thesis by (simp add: indexOf_complete)
qed

lemma rewritten_Nil: "rewritten mk hs [] src = src"
  by (simp add: rewritten_def ReplaceSource_source_def sortReplacements_def)

lemma fold_markers_absent:
  "\<forall>x \<in> set before. indexOf src (mk hs (fst x)) = None \<Longrightarrow>
     fold (replaceMagicMarkers mk hs src) before acc = acc"
  by (induction before arbitrary: acc) (simp_all add: replaceMagicMarkers_def)

lemma rewritten_single:
  assumes "indexOf src (mk hs cid) = Some p"
    and "\<forall>x \<in> set before. indexOf src (mk hs (fst x)) = None"
  shows "rewritten mk hs (before @ [(cid, h)]) src =
           take p src @ h @ drop (p + length (mk hs cid)) src"
proof -
  have "fold (replaceMagicMarkers mk hs src) (before @ [(cid, h)]) [] =
          [(int p, (int p + int (length (mk hs cid))) - 1, h, 0)]"
    using assms(1) fold_markers_absent [of before src mk hs "[]"] assms(2)
    by (simp add: replaceMagicMarkers_def replace_def)
  moreover have "replaceString [(int p, (int p + int (length (mk hs cid))) - 1, h, 0)] src =
      take p src @ h @ drop (p + length (mk hs cid)) src"
    by (cases "p = 0"; cases "mk hs cid = []")
       (auto simp: splitString_def Let_def nat_add_distrib min_def)
  ultimately show ?thesis
    by (simp add: rewritten_def ReplaceSource_source_def sortReplacements_def)
qed


section \<open>Processing a chain\<close>

lemma resolvedSourcePath_mismatch:
  "sourcePathMismatch c x \<Longrightarrow> resolvedSourcePath c x f0 = f0"
  by (simp add: resolvedSourcePath_def split: option.splits)

lemma resolvedSourcePath_table:
  "sriChunkAssets c' = sriChunkAssets c \<Longrightarrow>
     resolvedSourcePath c' x f0 = resolvedSourcePath c x f0"
  by (auto simp: resolvedSourcePath_def sourcePathMismatch_def split: option.splits)

lemma processChildChunk_ok:
  assumes "files ch = f0 # others"
    and "map_of assets (resolvedSourcePath c (cid, ch) f0) = Some a"
    and "hashFuncNames_of this = Inr hs"
    and "\<forall>n \<in> set hs. \<not> isl (createHash (JStr n))"
  shows "\<exists>this' c' i.
           processChildChunk createHash makePlaceholder (cid, ch) (this, c, assets, hm) =
             Inr (this', c',
                  AList.update (resolvedSourcePath c (cid, ch) f0)
                    \<lparr>source = rewritten makePlaceholder hs hm (source a), integrity = Some i\<rparr>
                    assets,
                  AList.update cid i hm)
           \<and> computeIntegrity createHash hs (rewritten makePlaceholder hs hm (source a)) = Inr i
           \<and> hashFuncNames_of this' = Inr hs
           \<and> sriChunkAssets c' = sriChunkAssets c"
proof (cases "sourcePathMismatch c (cid, ch)")
  case True
  let ?m = "cannotDetermineMessage cid (sriChunkAssets c cid) f0"
  let ?t = "fst (warnOnce this c ?m)" and ?c = "snd (warnOnce this c ?m)"
  have p: "resolvedSourcePath c (cid, ch) f0 = f0"
    using True by (rule resolvedSourcePath_mismatch)
  have h: "hashFuncNames_of ?t = Inr hs" using assms(3) by (simp add: hashFuncNames_of_warn)
  have a: "map_of assets f0 = Some a" using assms(2) p by simp
  from rewriteChunkAsset_ok [OF a h assms(4), of makePlaceholder cid ?c hm]
  obtain i where i:
    "rewriteChunkAsset createHash makePlaceholder cid f0 (?t, ?c, assets, hm) =
       Inr (fst (warnIfHotUpdate ?t ?c (source a)), snd (warnIfHotUpdate ?t ?c (source a)),
            AList.update f0
              \<lparr>source = rewritten makePlaceholder hs hm (source a), integrity = Some i\<rparr> assets,
            AList.update cid i hm)"
    "computeIntegrity createHash hs (rewritten makePlaceholder hs hm (source a)) = Inr i"
    by (elim exE conjE)
  have "processChildChunk createHash makePlaceholder (cid, ch) (this, c, assets, hm) =
          rewriteChunkAsset createHash makePlaceholder cid f0 (?t, ?c, assets, hm)"
    using processChildChunk_mismatch [of "(cid, ch)" f0 others c] assms(1) True by simp
  moreover have "hashFuncNames_of (fst (warnIfHotUpdate ?t ?c (source a))) = Inr hs"
    using h by (simp add: hashFuncNames_of_warn)
  moreover have "sriChunkAssets (snd (warnIfHotUpdate ?t ?c (source a))) = sriChunkAssets c"
    by (simp add: warnIfHotUpdate_frame warnOnce_frame)
  ultimately show ?thesis using i p by simp
next
  case False
  let ?p = "resolvedSourcePath c (cid, ch) f0"
  from rewriteChunkAsset_ok [OF assms(2,3,4), of makePlaceholder cid c hm]
  obtain i where i:
    "rewriteChunkAsset createHash makePlaceholder cid ?p (this, c, assets, hm) =
       Inr (fst (warnIfHotUpdate this c (source a)), snd (warnIfHotUpdate this c (source a)),
            AList.update ?p
              \<lparr>source = rewritten makePlaceholder hs hm (source a), integrity = Some i\<rparr> assets,
            AList.update cid i hm)"
    "computeIntegrity createHash hs (rewritten makePlaceholder hs hm (source a)) = Inr i"
    by (elim exE conjE)
  have "processChildChunk createHash makePlaceholder (cid, ch) (this, c, assets, hm) =
          rewriteChunkAsset createHash makePlaceholder cid ?p (this, c, assets, hm)"
    using processChildChunk_match [of "(cid, ch)" f0 others c] assms(1) False by simp
  moreover have "hashFuncNames_of (fst (warnIfHotUpdate this c (source a))) = Inr hs"
    using assms(3) by (simp add: hashFuncNames_of_warn)
  moreover have "sriChunkAssets (snd (warnIfHotUpdate this c (source a))) = sriChunkAssets c"
    by (simp add: warnIfHotUpdate_frame)
  ultimately show ?thesis using i by simp
qed

text \<open>
  C1, as amended. For a chain in which A loads only B, B only C, and C nothing, where
  each chunk has files, the three resolved paths are distinct assets and the names
  are supported, \<open>processChunk\<close> on A ends without an exception; \<open>hashByChunkId\<close> has
  received its entries in the order C, B, A; the integrity of C is that of its source;
  the source of B is rewritten with the entry of C and then hashed; the source of A is
  rewritten with the entries of C and B and then hashed. When the source of A contains
  the placeholder of B, the new source of A contains the integrity of B; when it
  contains no placeholder of C, the new source of A is the old one with the first
  occurrence of the placeholder of B replaced by the integrity of B. Only the first
  occurrence is replaced.
\<close>

theorem chain_order_and_substitution:
  assumes "map_of g idA = Some chA" and "children chA = [idB]"
    and "map_of g idB = Some chB" and "children chB = [idC]"
    and "map_of g idC = Some chC" and "children chC = []"
    and "idA \<noteq> idB" and "idB \<noteq> idC" and "idA \<noteq> idC"
    and "files chA = fA # othersA" and "files chB = fB # othersB"
    and "files chC = fC # othersC"
    and "pA = resolvedSourcePath c (idA, chA) fA"
    and "pB = resolvedSourcePath c (idB, chB) fB"
    and "pC = resolvedSourcePath c (idC, chC) fC"
    and "map_of assets pA = Some aA" and "map_of assets pB = Some aB"
    and "map_of assets pC = Some aC"
    and "pA \<noteq> pB" and "pB \<noteq> pC" and "pA \<noteq> pC"
    and "hashFuncNames_of this = Inr hs" and "\<forall>n \<in> set hs. \<not> isl (createHash (JStr n))"
  shows "\<exists>this' c' iA iB iC srcA srcB.
      processChunk createHash makePlaceholder this g idA c assets =
        Some (Inr (this', c',
          AList.update pA \<lparr>source = srcA, integrity = Some iA\<rparr>
            (AList.update pB \<lparr>source = srcB, integrity = Some iB\<rparr>
               (AList.update pC \<lparr>source = source aC, integrity = Some iC\<rparr> assets)),
          [(idC, iC), (idB, iB), (idA, iA)]))
      \<and> computeIntegrity createHash hs (source aC) = Inr iC
      \<and> srcB = ReplaceSource_source (source aB)
                 (fold (replaceMagicMarkers makePlaceholder hs (source aB)) [(idC, iC)] [])
      \<and> computeIntegrity createHash hs srcB = Inr iB
      \<and> srcA = ReplaceSource_source (source aA)
                 (fold (replaceMagicMarkers makePlaceholder hs (source aA))
                    [(idC, iC), (idB, iB)] [])
      \<and> computeIntegrity createHash hs srcA = Inr iA
      \<and> (indexOf (source aA) (makePlaceholder hs idB) \<noteq> None \<longrightarrow> indexOf srcA iB \<noteq> None)
      \<and> (\<forall>p. indexOf (source aA) (makePlaceholder hs idB) = Some p
              \<and> indexOf (source aA) (makePlaceholder hs idC) = None \<longrightarrow>
            srcA = take p (source aA) @ iB
                     @ drop (p + length (makePlaceholder hs idB)) (source aA))"
proof -
  let ?step = "processChildChunk createHash makePlaceholder"
  have found: "findChunks g idA = Some [(idA, chA), (idB, chB), (idC, chC)]"
    using assms(1-9) by (simp add: findChunks_def walk_Cons walk_Nil)
  from processChildChunk_ok [OF assms(12) assms(18) [unfolded assms(15)] assms(22,23),
      of makePlaceholder "[]"]
  obtain t1 c1 iC where s1:
    "?step (idC, chC) (this, c, assets, []) =
       Inr (t1, c1, AList.update pC \<lparr>source = source aC, integrity = Some iC\<rparr> assets,
            [(idC, iC)])"
    and iC: "computeIntegrity createHash hs (source aC) = Inr iC"
    and h1: "hashFuncNames_of t1 = Inr hs" and tab1: "sriChunkAssets c1 = sriChunkAssets c"
    unfolding rewritten_Nil assms(15) [symmetric] by auto
  let ?as1 = "AList.update pC \<lparr>source = source aC, integrity = Some iC\<rparr> assets"
  have pB1: "resolvedSourcePath c1 (idB, chB) fB = pB"
    using resolvedSourcePath_table [OF tab1] assms(14) by simp
  have aB1: "map_of ?as1 (resolvedSourcePath c1 (idB, chB) fB) = Some aB"
    using assms(17,20) by (simp add: pB1 update_conv')
  let ?srcB = "rewritten makePlaceholder hs [(idC, iC)] (source aB)"
  from processChildChunk_ok [OF assms(11) aB1 h1 assms(23), of makePlaceholder "[(idC, iC)]"]
  obtain t2 c2 iB where s2:
    "?step (idB, chB) (t1, c1, ?as1, [(idC, iC)]) =
       Inr (t2, c2, AList.update pB \<lparr>source = ?srcB, integrity = Some iB\<rparr> ?as1,
            [(idC, iC), (idB, iB)])"
    and iB: "computeIntegrity createHash hs ?srcB = Inr iB"
    and h2: "hashFuncNames_of t2 = Inr hs" and tab2: "sriChunkAssets c2 = sriChunkAssets c1"
    unfolding pB1 using assms(8) by auto
  let ?as2 = "AList.update pB \<lparr>source = ?srcB, integrity = Some iB\<rparr> ?as1"
  have pA2: "resolvedSourcePath c2 (idA, chA) fA = pA"
    using resolvedSourcePath_table [of c2 c] tab1 tab2 assms(13) by simp
  have aA2: "map_of ?as2 (resolvedSourcePath c2 (idA, chA) fA) = Some aA"
    using assms(16,19,21) by (simp add: pA2 update_conv')
  let ?hm2 = "[(idC, iC), (idB, iB)]"
  let ?srcA = "rewritten makePlaceholder hs ?hm2 (source aA)"
  from processChildChunk_ok [OF assms(10) aA2 h2 assms(23), of makePlaceholder ?hm2]
  obtain t3 c3 iA where s3:
    "?step (idA, chA) (t2, c2, ?as2, ?hm2) =
       Inr (t3, c3, AList.update pA \<lparr>source = ?srcA, integrity = Some iA\<rparr> ?as2,
            [(idC, iC), (idB, iB), (idA, iA)])"
    and iA: "computeIntegrity createHash hs ?srcA = Inr iA"
    unfolding pA2 using assms(7,9) by auto
  have run: "processChunk createHash makePlaceholder this g idA c assets =
        Some (Inr (t3, c3, AList.update pA \<lparr>source = ?srcA, integrity = Some iA\<rparr> ?as2,
                   [(idC, iC), (idB, iB), (idA, iA)]))"
    by (simp add: processChunk_def found s1 s2 s3)
  have contains: "indexOf ?srcA iB \<noteq> None"
    if "indexOf (source aA) (makePlaceholder hs idB) \<noteq> None"
    using rewritten_contains [of idB iB ?hm2 "source aA" makePlaceholder hs] that by simp
  have exact: "?srcA = take p (source aA) @ iB
                     @ drop (p + length (makePlaceholder hs idB)) (source aA)"
    if "indexOf (source aA) (makePlaceholder hs idB) = Some p"
      and "indexOf (source aA) (makePlaceholder hs idC) = None" for p
    using rewritten_single [of "source aA" makePlaceholder hs idB p "[(idC, iC)]" iB] that
    by simp
  show ?thesis
  proof (intro exI conjI allI impI)
    show "processChunk createHash makePlaceholder this g idA c assets =
        Some (Inr (t3, c3, AList.update pA \<lparr>source = ?srcA, integrity = Some iA\<rparr> ?as2,
                   [(idC, iC), (idB, iB), (idA, iA)]))"
      by (rule run)
    show "computeIntegrity createHash hs (source aC) = Inr iC" by (rule iC)
    show "?srcB = ReplaceSource_source (source aB)
                 (fold (replaceMagicMarkers makePlaceholder hs (source aB)) [(idC, iC)] [])"
      by (simp only: rewritten_def)
    show "computeIntegrity createHash hs ?srcB = Inr iB" by (rule iB)
    show "?srcA = ReplaceSource_source (source aA)
                 (fold (replaceMagicMarkers makePlaceholder hs (source aA))
                    [(idC, iC), (idB, iB)] [])"
      by (simp only: rewritten_def)
    show "computeIntegrity createHash hs ?srcA = Inr iA" by (rule iA)
    show "indexOf ?srcA iB \<noteq> None"
      if "indexOf (source aA) (makePlaceholder hs idB) \<noteq> None"
      using that by (rule contains)
    show "?srcA = take p (source aA) @ iB
                     @ drop (p + length (makePlaceholder hs idB)) (source aA)"
      if "indexOf (source aA) (makePlaceholder hs idB) = Some p
              \<and> indexOf (source aA) (makePlaceholder hs idC) = None" for p
      using that exact by (elim conjE)
  qed
qed


theorem chain_order_and_substitution_witness:
  "\<exists>this' c' assets' iA iB iC x.
     processChunk demo_createHash demo_makePlaceholder (demo_plugin [JStr ''sha256''])
       chain_graph ''A'' chain_compilation chain_assets
       = Some (Inr (this', c', assets', [(''C'', iC), (''B'', iB), (''A'', iA)]))
     \<and> map_of assets' ''b.js'' = Some \<lparr>source = ''load(sha256-14)'', integrity = Some iB\<rparr>
     \<and> map_of assets' ''a.js'' = Some x \<and> indexOf (source x) iB \<noteq> None"
proof -
  have h: "hashFuncNames_of (demo_plugin [JStr ''sha256'']) = Inr [''sha256'']"
    by (simp add: hashFuncNames_of_def demo_plugin_def get_prop_def)
  have s: "\<forall>n \<in> set [''sha256'']. \<not> isl (demo_createHash (JStr n))"
    by (simp add: demo_createHash_def standardHashFuncNames_def)
  have pA: "''a.js'' = resolvedSourcePath chain_compilation
                (''A'', \<lparr>files = [''a.js''], children = [''B'']\<rparr>) ''a.js''"
    and pB: "''b.js'' = resolvedSourcePath chain_compilation
                (''B'', \<lparr>files = [''b.js''], children = [''C'']\<rparr>) ''b.js''"
    and pC: "''c.js'' = resolvedSourcePath chain_compilation
                (''C'', \<lparr>files = [''c.js''], children = []\<rparr>) ''c.js''"
    by (simp_all add: resolvedSourcePath_def sourcePathMismatch_def chain_compilation_def)
  have m: "indexOf (''load('' @ demo_makePlaceholder [''sha256''] ''B'' @ ''); retry(''
                           @ demo_makePlaceholder [''sha256''] ''B'' @ '')'')
             (demo_makePlaceholder [''sha256''] ''B'') \<noteq> None"
    by (rule indexOf_complete)
  from chain_order_and_substitution [where g = chain_graph and idA = "''A''" and idB = "''B''"
      and idC = "''C''" and c = chain_compilation and assets = chain_assets
      and this = "demo_plugin [JStr ''sha256'']" and createHash = demo_createHash
      and makePlaceholder = demo_makePlaceholder and hs = "[''sha256'']"
      and chA = "\<lparr>files = [''a.js''], children = [''B'']\<rparr>"
      and chB = "\<lparr>files = [''b.js''], children = [''C'']\<rparr>"
      and chC = "\<lparr>files = [''c.js''], children = []\<rparr>"
      and fA = "''a.js''" and fB = "''b.js''" and fC = "''c.js''"
      and othersA = "[]" and othersB = "[]" and othersC = "[]"
      and pA = "''a.js''" and pB = "''b.js''" and pC = "''c.js''"
      and aA = "\<lparr>source = ''load('' @ demo_makePlaceholder [''sha256''] ''B'' @ ''); retry(''
                           @ demo_makePlaceholder [''sha256''] ''B'' @ '')'', integrity = None\<rparr>"
      and aB = "\<lparr>source = ''load('' @ demo_makePlaceholder [''sha256''] ''C'' @ '')'',
                 integrity = None\<rparr>"
      and aC = "\<lparr>source = ''console.log(1)'', integrity = None\<rparr>",
      OF _ _ _ _ _ _ _ _ _ _ _ _ pA pB pC _ _ _ _ _ _ h s]
  obtain this' c' iA iB iC srcA srcB where
    r: "processChunk demo_createHash demo_makePlaceholder (demo_plugin [JStr ''sha256''])
         chain_graph ''A'' chain_compilation chain_assets =
        Some (Inr (this', c',
          AList.update ''a.js'' \<lparr>source = srcA, integrity = Some iA\<rparr>
            (AList.update ''b.js'' \<lparr>source = srcB, integrity = Some iB\<rparr>
               (AList.update ''c.js'' \<lparr>source = ''console.log(1)'', integrity = Some iC\<rparr>
                  chain_assets)),
          [(''C'', iC), (''B'', iB), (''A'', iA)]))"
    and iC: "computeIntegrity demo_createHash [''sha256''] ''console.log(1)'' = Inr iC"
    and srcB: "srcB = ReplaceSource_source
                 (''load('' @ demo_makePlaceholder [''sha256''] ''C'' @ '')'')
                 (fold (replaceMagicMarkers demo_makePlaceholder [''sha256'']
                          (''load('' @ demo_makePlaceholder [''sha256''] ''C'' @ '')''))
                    [(''C'', iC)] [])"
    and c: "indexOf srcA iB \<noteq> None"
    using m by (simp add: chain_graph_def chain_assets_def) blast
  have "computeIntegrity demo_createHash [''sha256''] ''console.log(1)'' = Inr ''sha256-14''"
    by code_simp
  then have "iC = ''sha256-14''" using iC by simp
  moreover have "ReplaceSource_source
                 (''load('' @ demo_makePlaceholder [''sha256''] ''C'' @ '')'')
                 (fold (replaceMagicMarkers demo_makePlaceholder [''sha256'']
                          (''load('' @ demo_makePlaceholder [''sha256''] ''C'' @ '')''))
                    [(''C'', ''sha256-14'')] []) = ''load(sha256-14)''"
    by code_simp
  ultimately have "srcB = ''load(sha256-14)''"
    unfolding srcB by simp
  then show ?thesis
    using r c by (simp add: update_conv')
qed


text \<open>
  C1 as stated fails: in the chain whose chunk A has the placeholder of B twice,
  \<open>processChunk\<close> hashes C, B and A in this order and puts the integrity of B into the
  source of A, and the second occurrence of the placeholder of B is still there.
\<close>

theorem residual_placeholder_counterexample:
  "final_hashes (processChunk demo_createHash demo_makePlaceholder
       (demo_plugin [JStr ''sha256'']) chain_graph ''A'' chain_compilation chain_assets)
     = [(''C'', ''sha256-14''), (''B'', ''sha256-15''), (''A'', ''sha256-53'')]
   \<and> final_source (processChunk demo_createHash demo_makePlaceholder
       (demo_plugin [JStr ''sha256'']) chain_graph ''A'' chain_compilation chain_assets) ''a.js''
     = Some ''load(sha256-15); retry(*-*-*-CHUNK-SRI-HASH-sha256:B)''
   \<and> indexOf ''load(sha256-15); retry(*-*-*-CHUNK-SRI-HASH-sha256:B)''
         (demo_makePlaceholder [''sha256''] ''B'') = Some 23"
  by code_simp

end
